theory Spec2Isabelle
  imports Main "HOL-Library.Sublist"
begin

section \<open>Request parameter parsing of pg_featureserv (internal/service/param.go)\<close>

text \<open>
  The Go file parses the query parameters of a feature request. Every function of the
  file is embedded below under its own name. A Go result \<^verbatim>\<open>(T, error)\<close> is a pair
  whose second component is \<open>None\<close> for the nil error; a slice or pointer that may be nil
  is an \<open>option\<close> whose \<open>None\<close> is nil. The package-level configuration and the
  transform whitelist, global variables in Go, are passed as arguments, and so are the
  functions of the standard library and of package api that are not computed here.
\<close>

subsection \<open>Go values: slices, strings, the standard library\<close>

type_synonym 'a slice = "'a list option"

definition elems :: "'a slice \<Rightarrow> 'a list" where
  "elems s = (case s of None \<Rightarrow> [] | Some xs \<Rightarrow> xs)"

definition len :: "'a slice \<Rightarrow> nat" where
  "len s = length (elems s)"

text \<open>Go's \<^verbatim>\<open>append(s, x)\<close>: the result is never nil.\<close>

definition append_slice :: "'a slice \<Rightarrow> 'a \<Rightarrow> 'a slice" where
  "append_slice s x = Some (elems s @ [x])"

text \<open>
  \<^verbatim>\<open>strings.ToLower\<close> lower-cases by the Unicode tables and rewrites invalid UTF-8, which is
  outside the Go file. Every function below that calls it takes it as its first argument
  \<open>ToLower\<close>, and every property is proved for every such function.

  For a string of ASCII bytes Go takes a branch of its own: the letters A to Z are mapped
  to a to z and every other byte is kept. \<open>asciiLower\<close> is that branch. It stands for
  \<open>ToLower\<close> in the examples, whose strings are all ASCII.
\<close>

definition asciiLower_char :: "char \<Rightarrow> char" where
  "asciiLower_char c =
     (if (65::nat) \<le> of_char c \<and> of_char c \<le> (90::nat)
      then char_of (of_char c + (32::nat)) else c)"

definition asciiLower :: "string \<Rightarrow> string" where
  "asciiLower s = map asciiLower_char s"

text \<open>\<^verbatim>\<open>strings.HasPrefix(s, p)\<close>.\<close>

definition HasPrefix :: "string \<Rightarrow> string \<Rightarrow> bool" where
  "HasPrefix s p = prefix p s"

text \<open>\<^verbatim>\<open>strings.Index(s, sep)\<close>: the position of the leftmost occurrence, None for -1.\<close>

fun Index :: "string \<Rightarrow> string \<Rightarrow> nat option" where
  "Index [] sep = (if sep = [] then Some 0 else None)"
| "Index (c # cs) sep =
     (if prefix sep (c # cs) then Some 0
      else (case Index cs sep of None \<Rightarrow> None | Some m \<Rightarrow> Some (Suc m)))"

lemma Index_bound: "Index s sep = Some m \<Longrightarrow> m + length sep \<le> length s"
proof (induction s arbitrary: m)
  case Nil
  then show ?case by (simp split: if_splits)
next
  case (Cons c cs)
  show ?case
  proof (cases "prefix sep (c # cs)")
    case True
    with Cons.prems have "m = 0" by simp
    with prefix_length_le [OF True] show ?thesis by simp
  next
    case False
    with Cons.prems obtain k where k: "Index cs sep = Some k" "m = Suc k"
      by (auto split: option.splits)
    from Cons.IH [OF k(1)] k(2) show ?thesis by simp
  qed
qed

text \<open>
  \<^verbatim>\<open>strings.Split(s, sep)\<close>: the pieces of \<open>s\<close> between the non-overlapping occurrences of
  \<open>sep\<close>, found from the left. With an empty separator Go splits after each UTF-8
  sequence; the model splits after each byte there. No caller in this file passes an
  empty separator.
\<close>

function Split :: "string \<Rightarrow> string \<Rightarrow> string list" where
  "Split s sep =
     (if sep = [] then map (\<lambda>c. [c]) s
      else (case Index s sep of
              None \<Rightarrow> [s]
            | Some m \<Rightarrow> take m s # Split (drop (m + length sep) s) sep))"
  by pat_completeness auto
termination
proof (relation "measure (\<lambda>(s, sep). length s)")
  show "wf (measure (\<lambda>(s, sep). length s))" by simp
next
  fix s sep :: string and m :: nat
  assume nonempty: "sep \<noteq> []" and found: "Index s sep = Some m"
  from nonempty have "0 < length sep" by simp
  with Index_bound [OF found] have "length s - (m + length sep) < length s" by arith
  then show "((drop (m + length sep) s, sep), (s, sep)) \<in> measure (\<lambda>(s, sep). length s)"
    by simp
qed

declare Split.simps [simp del]

text \<open>
  \<^verbatim>\<open>strconv.Atoi\<close> on a 64-bit platform: an optional sign, then one or more decimal
  digits, and a value that fits a signed 64-bit integer. Anything else is an error
  (a syntax or range \<^verbatim>\<open>NumError\<close>), here None.
\<close>

definition is_digit :: "char \<Rightarrow> bool" where
  "is_digit c = ((48::nat) \<le> of_char c \<and> of_char c \<le> (57::nat))"

definition digit_val :: "char \<Rightarrow> int" where
  "digit_val c = int (of_char c) - 48"

definition digits_val :: "string \<Rightarrow> int" where
  "digits_val ds = foldl (\<lambda>n c. 10 * n + digit_val c) 0 ds"

definition Atoi_digits :: "bool \<Rightarrow> string \<Rightarrow> int option" where
  "Atoi_digits neg ds =
     (if ds = [] \<or> \<not> list_all is_digit ds then None
      else (let n = (if neg then - digits_val ds else digits_val ds)
            in if - (2 ^ 63) \<le> n \<and> n \<le> 2 ^ 63 - 1 then Some n else None))"

definition Atoi :: "string \<Rightarrow> int option" where
  "Atoi s =
     (case s of
        [] \<Rightarrow> None
      | c # cs \<Rightarrow>
          (if c = CHR ''-'' then Atoi_digits True cs
           else if c = CHR ''+'' then Atoi_digits False cs
           else Atoi_digits False s))"

subsection \<open>The packages api, conf and data\<close>

text \<open>
  \<^verbatim>\<open>api.NameValMap\<close> is \<^verbatim>\<open>map[string]string\<close>. Indexing a Go map with a missing key gives
  the zero value, the empty string.
\<close>

type_synonym NameValMap = "string \<rightharpoonup> string"

definition index_map :: "NameValMap \<Rightarrow> string \<Rightarrow> string" where
  "index_map values key = (case values key of None \<Rightarrow> [] | Some v \<Rightarrow> v)"

text \<open>
  The error built by \<^verbatim>\<open>fmt.Errorf(api.ErrMsgInvalidParameterValue, name, value)\<close>, kept as
  the two values it is formatted from.
\<close>

datatype error = InvalidParameterValue string string

text \<open>Modelled from the spec: the parameter names of package api, which is not part of
  the sources. The spec lists the recognized names in lower case.\<close>

definition ParamLimit :: string where "ParamLimit = ''limit''"
definition ParamOffset :: string where "ParamOffset = ''offset''"
definition ParamBbox :: string where "ParamBbox = ''bbox''"
definition ParamProperties :: string where "ParamProperties = ''properties''"
definition ParamOrderBy :: string where "ParamOrderBy = ''orderby''"
definition ParamPrecision :: string where "ParamPrecision = ''precision''"
definition ParamTransform :: string where "ParamTransform = ''transform''"

text \<open>\<^verbatim>\<open>conf.Configuration.Paging\<close>, read only.\<close>

record Paging =
  LimitDefault :: int
  LimitMax :: int

subsection \<open>parseInt and parseLimit\<close>

definition parseInt :: "NameValMap \<Rightarrow> string \<Rightarrow> int \<Rightarrow> int \<Rightarrow> int \<Rightarrow> int \<times> error option" where
  "parseInt values key minVal maxVal defaultVal =
     (let valStr = index_map values key in
      if length valStr < 1 then (defaultVal, None)
      else (case Atoi valStr of
              None \<Rightarrow> (0, Some (InvalidParameterValue key valStr))
            | Some val \<Rightarrow>
                (let val1 = (if val < minVal then minVal else val);
                     val2 = (if val1 > maxVal then maxVal else val1)
                 in (val2, None))))"

definition parseLimit :: "Paging \<Rightarrow> NameValMap \<Rightarrow> int \<times> error option" where
  "parseLimit paging values =
     (let val = index_map values ParamLimit in
      if length val < 1 then (LimitDefault paging, None)
      else (case Atoi val of
              None \<Rightarrow> (0, Some (InvalidParameterValue ParamLimit val))
            | Some limit \<Rightarrow>
                (if limit < 0 \<or> limit > LimitMax paging then (LimitMax paging, None)
                 else (limit, None))))"

subsection \<open>The data types of package data and the request parameters\<close>

text \<open>The coordinates are \<^verbatim>\<open>float64\<close> in Go; the parsers only store them, so their type
  is left open.\<close>

record 'f Extent =
  Minx :: 'f
  Miny :: 'f
  Maxx :: 'f
  Maxy :: 'f

record Ordering =
  Name :: string
  IsDesc :: bool

record TransformFunction =
  Name :: string
  Arg :: "string list"

record FilterCond =
  Name :: string
  Value :: string

text \<open>The fields of \<^verbatim>\<open>api.RequestParam\<close> and \<^verbatim>\<open>data.QueryParam\<close> that this file sets.\<close>

record 'f RequestParam =
  Limit :: int
  Offset :: int
  Precision :: int
  Values :: NameValMap
  Bbox :: "'f Extent option"
  Properties :: "string slice"
  OrderBy :: "Ordering slice"
  TransformFuns :: "TransformFunction slice"

record 'f QueryParam =
  Limit :: int
  Offset :: int
  Bbox :: "'f Extent option"
  OrderBy :: "Ordering slice"
  Precision :: int
  TransformFuns :: "TransformFunction slice"
  Columns :: "string slice"

subsection \<open>parseBbox\<close>

text \<open>
  \<^verbatim>\<open>strconv.ParseFloat(s, 64)\<close> is the argument \<open>ParseFloat\<close>: None when Go returns an
  error, else the number. The four elements are all parsed before the flag \<^verbatim>\<open>isErr\<close> is
  tested.
\<close>

definition parseBbox ::
  "(string \<Rightarrow> 'f option) \<Rightarrow> NameValMap \<Rightarrow> 'f Extent option \<times> error option" where
  "parseBbox ParseFloat values =
     (let val = index_map values ParamBbox in
      if length val < 1 then (None, None)
      else (let nums = Split val '','' in
        if length nums \<noteq> 4 then (None, Some (InvalidParameterValue ParamBbox val))
        else (case (ParseFloat (nums ! 0), ParseFloat (nums ! 1),
                    ParseFloat (nums ! 2), ParseFloat (nums ! 3)) of
                (Some minLon, Some minLat, Some maxLon, Some maxLat) \<Rightarrow>
                  (Some \<lparr>Minx = minLon, Miny = minLat, Maxx = maxLon, Maxy = maxLat\<rparr>, None)
              | _ \<Rightarrow> (None, Some (InvalidParameterValue ParamBbox val)))))"

subsection \<open>parseProperties\<close>

text \<open>The lookup \<^verbatim>\<open>val, ok := values[api.ParamProperties]\<close> tells a missing key from an
  empty value.\<close>

definition parseProperties :: "NameValMap \<Rightarrow> string slice \<times> error option" where
  "parseProperties values =
     (case values ParamProperties of
        None \<Rightarrow> (None, None)
      | Some val \<Rightarrow>
          (if length val < 1 then (Some [], None)
           else (let namesRaw = Split val '','' in (Some namesRaw, None))))"

subsection \<open>parseOrderBy\<close>

text \<open>Modelled from the spec: the direction separator and the two direction tokens of
  package api, which is not part of the sources. The spec's example is \<^verbatim>\<open>orderby=name:d\<close>
  for a descending order, and it calls the tokens the short forms of ascending and
  descending.\<close>

definition OrderByDirSep :: string where "OrderByDirSep = '':''"
definition OrderByDirD :: string where "OrderByDirD = ''d''"
definition OrderByDirA :: string where "OrderByDirA = ''a''"

definition parseOrderByDir :: "string \<Rightarrow> bool \<times> error option" where
  "parseOrderByDir dir =
     (if dir = OrderByDirD then (True, None)
      else if dir = OrderByDirA then (False, None)
      else (False, Some (InvalidParameterValue ParamOrderBy dir)))"

definition parseOrderBy :: "(string \<Rightarrow> string) \<Rightarrow> NameValMap \<Rightarrow> Ordering slice \<times> error option" where
  "parseOrderBy ToLower values =
     (let orderBy = None;
          val = index_map values ParamOrderBy in
      if length val < 1 then (orderBy, None)
      else (let valLow = ToLower val;
                nameDir = Split valLow OrderByDirSep;
                name = nameDir ! 0 in
        if length nameDir \<ge> 2 then
          (let dirSpec = nameDir ! 1;
               (isDesc, err) = parseOrderByDir dirSpec in
           if err \<noteq> None then (None, err)
           else (append_slice orderBy \<lparr>Ordering.Name = name, IsDesc = isDesc\<rparr>, None))
        else (append_slice orderBy \<lparr>Ordering.Name = name, IsDesc = False\<rparr>, None)))"

subsection \<open>normalizePropNames and toNameSet\<close>

fun toNameSet_loop :: "(string \<Rightarrow> string) \<Rightarrow> string list \<Rightarrow> (string \<rightharpoonup> bool) \<Rightarrow> (string \<rightharpoonup> bool)" where
  "toNameSet_loop ToLower [] nameSet = nameSet"
| "toNameSet_loop ToLower (s # strs) nameSet =
     (let sLow = ToLower s in toNameSet_loop ToLower strs (nameSet(sLow \<mapsto> True)))"

definition toNameSet :: "(string \<Rightarrow> string) \<Rightarrow> string list \<Rightarrow> (string \<rightharpoonup> bool)" where
  "toNameSet ToLower strs = toNameSet_loop ToLower strs Map.empty"

text \<open>The loop over \<^verbatim>\<open>colNames\<close>; \<open>propNames\<close> starts as the nil slice.\<close>

fun normalizePropNames_loop :: "(string \<rightharpoonup> bool) \<Rightarrow> string list \<Rightarrow> string slice \<Rightarrow> string slice" where
  "normalizePropNames_loop nameSet [] propNames = propNames"
| "normalizePropNames_loop nameSet (colName # rest) propNames =
     (if nameSet colName \<noteq> None
      then normalizePropNames_loop nameSet rest (append_slice propNames colName)
      else normalizePropNames_loop nameSet rest propNames)"

definition normalizePropNames ::
  "(string \<Rightarrow> string) \<Rightarrow> string slice \<Rightarrow> string slice \<Rightarrow> string slice" where
  "normalizePropNames ToLower requestNames colNames =
     (case requestNames of
        None \<Rightarrow> colNames
      | Some names \<Rightarrow>
          (if length names = 0 then requestNames
           else (let nameSet = toNameSet ToLower names
                 in normalizePropNames_loop nameSet (elems colNames) None)))"

subsection \<open>The transform parameter\<close>

definition transformFunSep :: string where "transformFunSep = ''|''"
definition transformParamSep :: string where "transformParamSep = '',''"
definition functionPrefixST :: string where "functionPrefixST = ''st_''"

text \<open>The global \<^verbatim>\<open>transformFunctionWhitelist\<close> is the argument \<open>whitelist\<close> of the functions
  that read it; \<^verbatim>\<open>initTransforms\<close> returns the map it assigns.\<close>

fun initTransforms_loop ::
  "(string \<Rightarrow> string) \<Rightarrow> string list \<Rightarrow> (string \<rightharpoonup> string) \<Rightarrow> (string \<rightharpoonup> string)" where
  "initTransforms_loop ToLower [] whitelist = whitelist"
| "initTransforms_loop ToLower (name # funNames) whitelist =
     (let nameLow = ToLower name
      in initTransforms_loop ToLower funNames (whitelist(nameLow \<mapsto> name)))"

definition initTransforms :: "(string \<Rightarrow> string) \<Rightarrow> string list \<Rightarrow> (string \<rightharpoonup> string)" where
  "initTransforms ToLower funNames = initTransforms_loop ToLower funNames Map.empty"

definition actualFunctionName ::
  "(string \<Rightarrow> string) \<Rightarrow> (string \<rightharpoonup> string) \<Rightarrow> string \<Rightarrow> string" where
  "actualFunctionName ToLower whitelist name =
     (let nameLow = ToLower name in
      case whitelist nameLow of
        Some actual \<Rightarrow> actual
      | None \<Rightarrow>
          (if \<not> HasPrefix nameLow functionPrefixST then
             (let stName = functionPrefixST @ nameLow in
              case whitelist stName of
                Some actual \<Rightarrow> actual
              | None \<Rightarrow> [])
           else []))"

text \<open>\<^verbatim>\<open>atoms[0]\<close> and \<^verbatim>\<open>atoms[1:]\<close>: the split of any string on a non-empty separator has
  at least one element (lemma \<open>Split_not_Nil\<close> below).\<close>

definition parseTransformFun :: "string \<Rightarrow> TransformFunction" where
  "parseTransformFun def =
     (let atoms = Split def transformParamSep;
          name = atoms ! 0;
          args = drop 1 atoms
      in \<lparr>TransformFunction.Name = name, Arg = args\<rparr>)"

fun parseTransform_loop ::
  "(string \<Rightarrow> string) \<Rightarrow> (string \<rightharpoonup> string) \<Rightarrow> string list \<Rightarrow> TransformFunction list
     \<Rightarrow> TransformFunction slice \<times> error option" where
  "parseTransform_loop ToLower whitelist [] funList = (Some funList, None)"
| "parseTransform_loop ToLower whitelist (fun # funDefs) funList =
     (let tf = parseTransformFun fun;
          actualName = actualFunctionName ToLower whitelist (TransformFunction.Name tf) in
      if length actualName \<le> 0
      then (None, Some (InvalidParameterValue ParamTransform (TransformFunction.Name tf)))
      else (let tf = tf\<lparr>TransformFunction.Name := actualName\<rparr> in
            if TransformFunction.Name tf \<noteq> []
            then parseTransform_loop ToLower whitelist funDefs (funList @ [tf])
            else parseTransform_loop ToLower whitelist funDefs funList))"

definition parseTransform ::
  "(string \<Rightarrow> string) \<Rightarrow> (string \<rightharpoonup> string) \<Rightarrow> NameValMap \<Rightarrow> TransformFunction slice \<times> error option" where
  "parseTransform ToLower whitelist values =
     (let val = index_map values ParamTransform in
      if length val < 1 then (None, None)
      else (let funDefs = Split val transformFunSep;
                funList = []
            in parseTransform_loop ToLower whitelist funDefs funList))"

subsection \<open>parseFilter\<close>



subsection \<open>createQueryParams\<close>

definition createQueryParams ::
  "(string \<Rightarrow> string) \<Rightarrow> 'f RequestParam \<Rightarrow> string slice \<Rightarrow> 'f QueryParam" where
  "createQueryParams ToLower requestParam colNames =
     (let param = \<lparr>QueryParam.Limit = RequestParam.Limit requestParam,
                   Offset = RequestParam.Offset requestParam,
                   Bbox = RequestParam.Bbox requestParam,
                   OrderBy = RequestParam.OrderBy requestParam,
                   Precision = RequestParam.Precision requestParam,
                   TransformFuns = RequestParam.TransformFuns requestParam,
                   Columns = None\<rparr>
      in param\<lparr>Columns :=
           normalizePropNames ToLower (RequestParam.Properties requestParam) colNames\<rparr>)"

subsection \<open>extractSingleArgs and parseRequestParams\<close>

text \<open>
  \<^verbatim>\<open>url.Values\<close> is \<^verbatim>\<open>map[string][]string\<close>; \<open>queryArgs\<close> is the list of its entries in the
  order of the iteration. \<^verbatim>\<open>Get\<close> returns the first value of a key, or the empty string.
\<close>

definition Get :: "(string \<times> string list) list \<Rightarrow> string \<Rightarrow> string" where
  "Get queryArgs key =
     (case map_of queryArgs key of
        None \<Rightarrow> []
      | Some vs \<Rightarrow> (case vs of [] \<Rightarrow> [] | v # _ \<Rightarrow> v))"

fun extractSingleArgs_loop ::
  "(string \<Rightarrow> string) \<Rightarrow> (string \<times> string list) list \<Rightarrow> (string \<times> string list) list \<Rightarrow> NameValMap \<Rightarrow> NameValMap" where
  "extractSingleArgs_loop ToLower queryArgs [] vals = vals"
| "extractSingleArgs_loop ToLower queryArgs ((keyRaw, vs) # rest) vals =
     (let queryval = Get queryArgs keyRaw;
          key = ToLower keyRaw
      in extractSingleArgs_loop ToLower queryArgs rest (vals(key \<mapsto> queryval)))"

definition extractSingleArgs ::
  "(string \<Rightarrow> string) \<Rightarrow> (string \<times> string list) list \<Rightarrow> NameValMap" where
  "extractSingleArgs ToLower queryArgs =
     extractSingleArgs_loop ToLower queryArgs queryArgs Map.empty"

text \<open>
  \<open>queryValues\<close> is \<^verbatim>\<open>r.URL.Query()\<close>. Each \<^verbatim>\<open>return param, err\<close> of the source returns the
  struct as filled so far together with the error.
\<close>

definition parseRequestParams ::
  "(string \<Rightarrow> string) \<Rightarrow> (string \<Rightarrow> 'f option) \<Rightarrow> Paging \<Rightarrow> (string \<rightharpoonup> string) \<Rightarrow> (string \<times> string list) list
     \<Rightarrow> 'f RequestParam \<times> error option" where
  "parseRequestParams ToLower ParseFloat paging whitelist queryValues =
     (let paramValues = extractSingleArgs ToLower queryValues;
          param = \<lparr>RequestParam.Limit = LimitDefault paging,
                   Offset = 0,
                   Precision = - 1,
                   Values = paramValues,
                   Bbox = None,
                   Properties = None,
                   OrderBy = None,
                   TransformFuns = None\<rparr>;
          (limit, err) = parseLimit paging paramValues in
      if err \<noteq> None then (param, err) else
      let param = param\<lparr>RequestParam.Limit := limit\<rparr>;
          (offset, err) = parseInt paramValues ParamOffset 0 (LimitMax paging) 0 in
      if err \<noteq> None then (param, err) else
      let param = param\<lparr>RequestParam.Offset := offset\<rparr>;
          (bbox, err) = parseBbox ParseFloat paramValues in
      if err \<noteq> None then (param, err) else
      let param = param\<lparr>RequestParam.Bbox := bbox\<rparr>;
          (props, err) = parseProperties paramValues in
      if err \<noteq> None then (param, err) else
      let param = param\<lparr>RequestParam.Properties := props\<rparr>;
          (orderBy, err) = parseOrderBy ToLower paramValues in
      if err \<noteq> None then (param, err) else
      let param = param\<lparr>RequestParam.OrderBy := orderBy\<rparr>;
          (precision, err) = parseInt paramValues ParamPrecision 0 20 (- 1) in
      if err \<noteq> None then (param, err) else
      let param = param\<lparr>RequestParam.Precision := precision\<rparr>;
          (transformFuns, err) = parseTransform ToLower whitelist paramValues;
          param = param\<lparr>RequestParam.TransformFuns := transformFuns\<rparr> in
      if err \<noteq> None then (param, err) else
      (param, None))"

subsection \<open>Joining strings\<close>

text \<open>\<^verbatim>\<open>strings.Join\<close>, the inverse of \<open>Split\<close>. The Go file does not call it; the
  properties below use it to say that a split loses nothing.\<close>

fun Join :: "string list \<Rightarrow> string \<Rightarrow> string" where
  "Join [] sep = []"
| "Join [x] sep = x"
| "Join (x # y # ys) sep = x @ sep @ Join (y # ys) sep"

subsection \<open>The projection of the spec\<close>

text \<open>Follows the spec's words for the assembler: nil gives the full column list, an
  empty sequence the empty result, a non-empty sequence the catalog names, in catalog
  order, that some requested name matches case-insensitively.\<close>

definition projection_spec ::
  "(string \<Rightarrow> string) \<Rightarrow> string slice \<Rightarrow> string list \<Rightarrow> string list" where
  "projection_spec ToLower requestNames colNames =
     (case requestNames of
        None \<Rightarrow> colNames
      | Some names \<Rightarrow>
          filter (\<lambda>colName. list_ex (\<lambda>name. ToLower name = ToLower colName) names) colNames)"

subsection \<open>The name resolution of the spec\<close>

text \<open>Follows the spec's words for the transform parser: a case-insensitive match gives
  the canonical form of the whitelist; without a match, a name that lacks the prefix is
  looked up again with the prefix prepended; otherwise the name does not resolve.\<close>

definition resolveName_spec ::
  "(string \<Rightarrow> string) \<Rightarrow> (string \<rightharpoonup> string) \<Rightarrow> string \<Rightarrow> string option" where
  "resolveName_spec ToLower whitelist name =
     (case whitelist (ToLower name) of
        Some actual \<Rightarrow> Some actual
      | None \<Rightarrow>
          (if HasPrefix (ToLower name) functionPrefixST then None
           else whitelist (functionPrefixST @ ToLower name)))"

subsection \<open>The first error of a sequence of parser results\<close>

text \<open>Follows the spec's words ("the first error encountered"): the first result in the
  list that is an error, None when there is none.\<close>

fun first_error :: "error option list \<Rightarrow> error option" where
  "first_error [] = None"
| "first_error (e # es) = (case e of Some x \<Rightarrow> Some x | None \<Rightarrow> first_error es)"

section \<open>Properties\<close>

subsection \<open>Index and Split\<close>

lemma Index_found: "Index s sep = Some m \<Longrightarrow> take m s @ sep @ drop (m + length sep) s = s"
proof (induction s arbitrary: m)
  case Nil
  then show ?case by (simp split: if_splits)
next
  case (Cons c cs)
  show ?case
  proof (cases "prefix sep (c # cs)")
    case True
    with Cons.prems have "m = 0" by simp
    moreover from True obtain r where "c # cs = sep @ r" by (auto simp: prefix_def)
    ultimately show ?thesis by simp
  next
    case False
    with Cons.prems obtain k where k: "Index cs sep = Some k" "m = Suc k"
      by (auto split: option.splits)
    from Cons.IH [OF k(1)] k(2) show ?thesis by simp
  qed
qed

lemma Index_leftmost: "Index s sep = Some m \<Longrightarrow> sep \<noteq> [] \<Longrightarrow> Index (take m s) sep = None"
proof (induction s arbitrary: m)
  case Nil
  then show ?case by (simp split: if_splits)
next
  case (Cons c cs)
  show ?case
  proof (cases "prefix sep (c # cs)")
    case True
    with Cons.prems show ?thesis by simp
  next
    case False
    with Cons.prems obtain k where k: "Index cs sep = Some k" "m = Suc k"
      by (auto split: option.splits)
    have "prefix (c # take k cs) (c # cs)" by (simp add: take_is_prefix)
    with False have "\<not> prefix sep (c # take k cs)"
      using prefix_order.order_trans by blast
    with Cons.IH [OF k(1) Cons.prems(2)] k(2) show ?thesis by simp
  qed
qed

lemma Index_char_None: "Index s [c] = None \<longleftrightarrow> c \<notin> set s"
  by (induction s) (auto split: option.splits)

lemma Split_no_sep: "sep \<noteq> [] \<Longrightarrow> Index s sep = None \<Longrightarrow> Split s sep = [s]"
  by (subst Split.simps) simp

lemma Split_sep:
  "sep \<noteq> [] \<Longrightarrow> Index s sep = Some m \<Longrightarrow>
   Split s sep = take m s # Split (drop (m + length sep) s) sep"
  by (subst Split.simps) simp

lemma Split_not_Nil: "sep \<noteq> [] \<Longrightarrow> Split s sep \<noteq> []"
  by (cases "Index s sep") (simp_all add: Split_no_sep Split_sep)

lemma Split_hd:
  "sep \<noteq> [] \<Longrightarrow> Split s sep ! 0 = (case Index s sep of None \<Rightarrow> s | Some m \<Rightarrow> take m s)"
  by (cases "Index s sep") (simp_all add: Split_no_sep Split_sep)

lemma Split_length_2:
  "sep \<noteq> [] \<Longrightarrow> 2 \<le> length (Split s sep) \<longleftrightarrow> Index s sep \<noteq> None"
proof (cases "Index s sep")
  case None
  assume "sep \<noteq> []"
  with None show ?thesis by (simp add: Split_no_sep)
next
  case (Some m)
  assume sep: "sep \<noteq> []"
  from Split_not_Nil [OF sep, of "drop (m + length sep) s"]
  have "1 \<le> length (Split (drop (m + length sep) s) sep)"
    by (cases "Split (drop (m + length sep) s) sep") simp_all
  with Some sep show ?thesis by (simp add: Split_sep)
qed

lemma Join_Cons: "ys \<noteq> [] \<Longrightarrow> Join (x # ys) sep = x @ sep @ Join ys sep"
  by (cases ys) simp_all

lemma Split_Join: "sep \<noteq> [] \<Longrightarrow> Join (Split s sep) sep = s"
proof (induction s sep rule: Split.induct)
  case (1 s sep)
  show ?case
  proof (cases "Index s sep")
    case None
    with "1.prems" show ?thesis by (simp add: Split_no_sep)
  next
    case (Some m)
    from "1.IH" [OF "1.prems" Some "1.prems"]
    have "Join (Split (drop (m + length sep) s) sep) sep = drop (m + length sep) s" .
    with Some "1.prems" Index_found [OF Some] show ?thesis
      by (simp add: Split_sep Join_Cons Split_not_Nil)
  qed
qed

lemma Split_pieces: "sep \<noteq> [] \<Longrightarrow> x \<in> set (Split s sep) \<Longrightarrow> Index x sep = None"
proof (induction s sep rule: Split.induct)
  case (1 s sep)
  show ?case
  proof (cases "Index s sep")
    case None
    with "1.prems" show ?thesis by (simp add: Split_no_sep)
  next
    case (Some m)
    with "1.prems" have "x = take m s \<or> x \<in> set (Split (drop (m + length sep) s) sep)"
      by (simp add: Split_sep)
    then show ?thesis
    proof
      assume "x = take m s"
      with Index_leftmost [OF Some "1.prems"(1)] show ?thesis by simp
    next
      assume "x \<in> set (Split (drop (m + length sep) s) sep)"
      from "1.IH" [OF "1.prems"(1) Some "1.prems"(1) this] show ?thesis .
    qed
  qed
qed

subsection \<open>Map lookups and integer parsing\<close>

lemma Atoi_Nil: "Atoi [] = None"
  by (simp add: Atoi_def)

lemma index_map_empty_iff:
  "index_map vals key = [] \<longleftrightarrow> vals key = None \<or> vals key = Some []"
  by (simp add: index_map_def split: option.splits)

lemma index_map_Some: "vals key = Some v \<Longrightarrow> index_map vals key = v"
  by (simp add: index_map_def)

text \<open>
  C3. The limit parser returns the configured default when the parameter is absent or
  empty, fails with \<open>InvalidParameterValue\<close> for a non-empty value that \<open>Atoi\<close> rejects,
  returns the configured maximum for every parsed value that is negative or above the
  maximum, and returns every parsed value between 0 and the maximum unchanged.
\<close>

theorem parseLimit_cases:
  "(vals ParamLimit = None \<or> vals ParamLimit = Some [] \<longrightarrow>
      parseLimit paging vals = (LimitDefault paging, None))
   \<and> (vals ParamLimit = Some v \<and> v \<noteq> [] \<and> Atoi v = None \<longrightarrow>
      parseLimit paging vals = (0, Some (InvalidParameterValue ParamLimit v)))
   \<and> (vals ParamLimit = Some v \<and> Atoi v = Some n \<and> (n < 0 \<or> LimitMax paging < n) \<longrightarrow>
      parseLimit paging vals = (LimitMax paging, None))
   \<and> (vals ParamLimit = Some v \<and> Atoi v = Some n \<and> 0 \<le> n \<and> n \<le> LimitMax paging \<longrightarrow>
      parseLimit paging vals = (n, None))"
proof (intro conjI impI)
  assume "vals ParamLimit = None \<or> vals ParamLimit = Some []"
  then have "index_map vals ParamLimit = []" by (simp add: index_map_empty_iff)
  then show "parseLimit paging vals = (LimitDefault paging, None)"
    by (simp add: parseLimit_def)
next
  assume "vals ParamLimit = Some v \<and> v \<noteq> [] \<and> Atoi v = None"
  then show "parseLimit paging vals = (0, Some (InvalidParameterValue ParamLimit v))"
    by (simp add: parseLimit_def index_map_Some)
next
  assume a: "vals ParamLimit = Some v \<and> Atoi v = Some n \<and> (n < 0 \<or> LimitMax paging < n)"
  then have "v \<noteq> []" using Atoi_Nil by auto
  with a show "parseLimit paging vals = (LimitMax paging, None)"
    by (auto simp add: parseLimit_def index_map_Some)
next
  assume a: "vals ParamLimit = Some v \<and> Atoi v = Some n \<and> 0 \<le> n \<and> n \<le> LimitMax paging"
  then have "v \<noteq> []" using Atoi_Nil by auto
  with a show "parseLimit paging vals = (n, None)"
    by (auto simp add: parseLimit_def index_map_Some)
qed

text \<open>With default 10 and maximum 1000: no parameter gives 10, \<^verbatim>\<open>limit=abc\<close> fails,
  \<^verbatim>\<open>limit=-5\<close> gives 1000 and \<^verbatim>\<open>limit=50\<close> gives 50.\<close>

theorem parseLimit_cases_witness:
  "parseLimit \<lparr>LimitDefault = 10, LimitMax = 1000\<rparr> Map.empty = (10, None)
   \<and> parseLimit \<lparr>LimitDefault = 10, LimitMax = 1000\<rparr> [ParamLimit \<mapsto> ''abc'']
       = (0, Some (InvalidParameterValue ParamLimit ''abc''))
   \<and> parseLimit \<lparr>LimitDefault = 10, LimitMax = 1000\<rparr> [ParamLimit \<mapsto> ''-5''] = (1000, None)
   \<and> parseLimit \<lparr>LimitDefault = 10, LimitMax = 1000\<rparr> [ParamLimit \<mapsto> ''50''] = (50, None)"
proof -
  let ?p = "\<lparr>LimitDefault = 10, LimitMax = 1000\<rparr>"
  have a1: "Atoi ''abc'' = None" by code_simp
  have a2: "Atoi ''-5'' = Some (- 5)" by code_simp
  have a3: "Atoi ''50'' = Some 50" by code_simp
  from parseLimit_cases [where vals = Map.empty and paging = ?p]
  have w1: "parseLimit ?p Map.empty = (10, None)" by simp
  from parseLimit_cases [where vals = "[ParamLimit \<mapsto> ''abc'']" and v = "''abc''" and paging = ?p] a1
  have w2: "parseLimit ?p [ParamLimit \<mapsto> ''abc''] = (0, Some (InvalidParameterValue ParamLimit ''abc''))"
    by simp
  from parseLimit_cases [where vals = "[ParamLimit \<mapsto> ''-5'']" and v = "''-5''" and paging = ?p and n = "- 5"] a2
  have w3: "parseLimit ?p [ParamLimit \<mapsto> ''-5''] = (1000, None)" by simp
  from parseLimit_cases [where vals = "[ParamLimit \<mapsto> ''50'']" and v = "''50''" and paging = ?p and n = 50] a3
  have w4: "parseLimit ?p [ParamLimit \<mapsto> ''50''] = (50, None)" by simp
  from w1 w2 w3 w4 show ?thesis by simp
qed

subsection \<open>parseRequestParams, step by step\<close>

lemma parseRequestParams_snd:
  "snd (parseRequestParams ToLower ParseFloat paging whitelist queryValues) =
   (let paramValues = extractSingleArgs ToLower queryValues in
    first_error
     [snd (parseLimit paging paramValues),
      snd (parseInt paramValues ParamOffset 0 (LimitMax paging) 0),
      snd (parseBbox ParseFloat paramValues),
      snd (parseProperties paramValues),
      snd (parseOrderBy ToLower paramValues),
      snd (parseInt paramValues ParamPrecision 0 20 (- 1)),
      snd (parseTransform ToLower whitelist paramValues)])"
  by (simp add: parseRequestParams_def Let_def split: prod.splits option.splits)

lemma parseRequestParams_fst:
  "snd (parseRequestParams ToLower ParseFloat paging whitelist queryValues) = None \<Longrightarrow>
   fst (parseRequestParams ToLower ParseFloat paging whitelist queryValues) =
   (let paramValues = extractSingleArgs ToLower queryValues in
    \<lparr>RequestParam.Limit = fst (parseLimit paging paramValues),
     Offset = fst (parseInt paramValues ParamOffset 0 (LimitMax paging) 0),
     Precision = fst (parseInt paramValues ParamPrecision 0 20 (- 1)),
     Values = paramValues,
     Bbox = fst (parseBbox ParseFloat paramValues),
     Properties = fst (parseProperties paramValues),
     OrderBy = fst (parseOrderBy ToLower paramValues),
     TransformFuns = fst (parseTransform ToLower whitelist paramValues)\<rparr>)"
  by (simp add: parseRequestParams_def Let_def split: prod.splits option.splits if_splits)

subsection \<open>The bounded integer parser\<close>

lemma parseInt_absent:
  "index_map vals key = [] \<Longrightarrow> parseInt vals key minVal maxVal defaultVal = (defaultVal, None)"
  by (simp add: parseInt_def)

lemma parseInt_unparseable:
  "index_map vals key \<noteq> [] \<Longrightarrow> Atoi (index_map vals key) = None \<Longrightarrow>
   parseInt vals key minVal maxVal defaultVal
     = (0, Some (InvalidParameterValue key (index_map vals key)))"
  by (simp add: parseInt_def)

lemma parseInt_parsed:
  "Atoi (index_map vals key) = Some n \<Longrightarrow>
   parseInt vals key minVal maxVal defaultVal
     = (if (if n < minVal then minVal else n) > maxVal then maxVal
        else (if n < minVal then minVal else n), None)"
proof -
  assume a: "Atoi (index_map vals key) = Some n"
  then have "index_map vals key \<noteq> []" using Atoi_Nil by auto
  with a show ?thesis by (simp add: parseInt_def Let_def)
qed

text \<open>
  C7. The bounded-integer parser returns the default, without error, when the key is
  absent or its value is empty. It returns an error exactly when the value is present,
  not empty and rejected by \<open>Atoi\<close>, and the error is \<open>InvalidParameterValue key value\<close>.
  With \<open>minVal \<le> maxVal\<close> every parsed value is returned clamped into the range, without
  error, and unchanged when it is in the range. A successful parse of the request takes
  the offset from the range 0 to the configured maximum with default 0, and the precision
  from the range 0 to 20 with default -1.
\<close>

theorem parseInt_cases:
  "(vals key = None \<or> vals key = Some [] \<longrightarrow>
      parseInt vals key minVal maxVal defaultVal = (defaultVal, None))
   \<and> (snd (parseInt vals key minVal maxVal defaultVal) \<noteq> None \<longleftrightarrow>
        (\<exists>v. vals key = Some v \<and> v \<noteq> [] \<and> Atoi v = None))
   \<and> (vals key = Some v \<and> v \<noteq> [] \<and> Atoi v = None \<longrightarrow>
      parseInt vals key minVal maxVal defaultVal = (0, Some (InvalidParameterValue key v)))
   \<and> (vals key = Some v \<and> Atoi v = Some n \<and> minVal \<le> maxVal \<longrightarrow>
      parseInt vals key minVal maxVal defaultVal = (max minVal (min maxVal n), None)
      \<and> minVal \<le> fst (parseInt vals key minVal maxVal defaultVal)
      \<and> fst (parseInt vals key minVal maxVal defaultVal) \<le> maxVal
      \<and> (minVal \<le> n \<and> n \<le> maxVal \<longrightarrow> fst (parseInt vals key minVal maxVal defaultVal) = n))
   \<and> (snd (parseRequestParams ToLower ParseFloat paging whitelist queryValues) = None \<longrightarrow>
      RequestParam.Offset (fst (parseRequestParams ToLower ParseFloat paging whitelist queryValues))
        = fst (parseInt (extractSingleArgs ToLower queryValues) ParamOffset 0 (LimitMax paging) 0)
      \<and> RequestParam.Precision (fst (parseRequestParams ToLower ParseFloat paging whitelist queryValues))
        = fst (parseInt (extractSingleArgs ToLower queryValues) ParamPrecision 0 20 (- 1)))"
proof (intro conjI impI)
  assume "vals key = None \<or> vals key = Some []"
  then show "parseInt vals key minVal maxVal defaultVal = (defaultVal, None)"
    by (simp add: parseInt_absent index_map_empty_iff)
next
  show "snd (parseInt vals key minVal maxVal defaultVal) \<noteq> None \<longleftrightarrow>
        (\<exists>v. vals key = Some v \<and> v \<noteq> [] \<and> Atoi v = None)"
  proof (cases "vals key")
    case None
    then show ?thesis by (simp add: parseInt_def index_map_def)
  next
    case (Some w)
    then show ?thesis
      by (cases "Atoi w") (simp_all add: parseInt_def index_map_def Let_def)
  qed
next
  assume "vals key = Some v \<and> v \<noteq> [] \<and> Atoi v = None"
  then show "parseInt vals key minVal maxVal defaultVal = (0, Some (InvalidParameterValue key v))"
    using parseInt_unparseable [of vals key minVal maxVal defaultVal]
    by (simp add: index_map_Some)
next
  assume a: "vals key = Some v \<and> Atoi v = Some n \<and> minVal \<le> maxVal"
  then have p: "Atoi (index_map vals key) = Some n" by (simp add: index_map_Some)
  from a parseInt_parsed [OF p, of minVal maxVal defaultVal]
  show "parseInt vals key minVal maxVal defaultVal = (max minVal (min maxVal n), None)"
    by (auto simp add: max_def min_def)
  then show "minVal \<le> fst (parseInt vals key minVal maxVal defaultVal)"
    and "fst (parseInt vals key minVal maxVal defaultVal) \<le> maxVal"
    using a by simp_all
next
  assume a: "vals key = Some v \<and> Atoi v = Some n \<and> minVal \<le> maxVal"
    and b: "minVal \<le> n \<and> n \<le> maxVal"
  from a have p: "Atoi (index_map vals key) = Some n" by (simp add: index_map_Some)
  from b parseInt_parsed [OF p, of minVal maxVal defaultVal]
  show "fst (parseInt vals key minVal maxVal defaultVal) = n" by simp
next
  assume ok: "snd (parseRequestParams ToLower ParseFloat paging whitelist queryValues) = None"
  from parseRequestParams_fst [OF ok]
  show "RequestParam.Offset (fst (parseRequestParams ToLower ParseFloat paging whitelist queryValues))
        = fst (parseInt (extractSingleArgs ToLower queryValues) ParamOffset 0 (LimitMax paging) 0)"
    and "RequestParam.Precision (fst (parseRequestParams ToLower ParseFloat paging whitelist queryValues))
        = fst (parseInt (extractSingleArgs ToLower queryValues) ParamPrecision 0 20 (- 1))"
    by (simp_all add: Let_def)
qed

text \<open>No precision gives -1; \<^verbatim>\<open>offset=x1\<close> fails; \<^verbatim>\<open>offset=-3\<close> gives 0; \<^verbatim>\<open>precision=99\<close>
  gives 20; \<^verbatim>\<open>precision=7\<close> gives 7; a request with \<^verbatim>\<open>offset=2000\<close> and \<^verbatim>\<open>precision=-4\<close>
  under a maximum of 1000 gets offset 1000 and precision 0.\<close>

theorem parseInt_cases_witness:
  "parseInt Map.empty ParamPrecision 0 20 (- 1) = (- 1, None)
   \<and> parseInt [ParamOffset \<mapsto> ''x1''] ParamOffset 0 1000 0
       = (0, Some (InvalidParameterValue ParamOffset ''x1''))
   \<and> parseInt [ParamOffset \<mapsto> ''-3''] ParamOffset 0 1000 0 = (0, None)
   \<and> parseInt [ParamPrecision \<mapsto> ''99''] ParamPrecision 0 20 (- 1) = (20, None)
   \<and> parseInt [ParamPrecision \<mapsto> ''7''] ParamPrecision 0 20 (- 1) = (7, None)
   \<and> RequestParam.Offset (fst (parseRequestParams asciiLower Atoi \<lparr>LimitDefault = 10, LimitMax = 1000\<rparr>
         Map.empty [(''offset'', [''2000'']), (''precision'', [''-4''])])) = 1000
   \<and> RequestParam.Precision (fst (parseRequestParams asciiLower Atoi \<lparr>LimitDefault = 10, LimitMax = 1000\<rparr>
         Map.empty [(''offset'', [''2000'']), (''precision'', [''-4''])])) = 0"
proof -
  let ?q = "[(''offset'', [''2000'']), (''precision'', [''-4''])]"
  let ?p = "\<lparr>LimitDefault = 10, LimitMax = 1000\<rparr>"
  have a1: "Atoi ''x1'' = None" by code_simp
  have a2: "Atoi ''-3'' = Some (- 3)" by code_simp
  have a3: "Atoi ''99'' = Some 99" by code_simp
  have a4: "Atoi ''7'' = Some 7" by code_simp
  have ok: "snd (parseRequestParams asciiLower Atoi ?p Map.empty ?q) = None" by code_simp
  have o: "fst (parseInt (extractSingleArgs asciiLower ?q) ParamOffset 0 (LimitMax ?p) 0) = 1000"
    by code_simp
  have pr: "fst (parseInt (extractSingleArgs asciiLower ?q) ParamPrecision 0 20 (- 1)) = 0"
    by code_simp
  note t = parseInt_cases [where ParseFloat = Atoi and paging = ?p and whitelist = Map.empty
      and queryValues = ?q]
  from t [where vals = Map.empty and key = ParamPrecision and v = "[]" and n = 0
      and minVal = 0 and maxVal = 20 and defaultVal = "- 1"]
  have w1: "parseInt Map.empty ParamPrecision 0 20 (- 1) = (- 1, None)" by simp
  from a1 t [where vals = "[ParamOffset \<mapsto> ''x1'']" and key = ParamOffset and v = "''x1''"
      and n = 0 and minVal = 0 and maxVal = 1000 and defaultVal = 0]
  have w2: "parseInt [ParamOffset \<mapsto> ''x1''] ParamOffset 0 1000 0
       = (0, Some (InvalidParameterValue ParamOffset ''x1''))" by simp
  from a2 t [where vals = "[ParamOffset \<mapsto> ''-3'']" and key = ParamOffset
      and v = "''-3''" and n = "- 3" and minVal = 0 and maxVal = 1000 and defaultVal = 0]
  have w3: "parseInt [ParamOffset \<mapsto> ''-3''] ParamOffset 0 1000 0 = (0, None)" by simp
  from a3 t [where vals = "[ParamPrecision \<mapsto> ''99'']" and key = ParamPrecision
      and v = "''99''" and n = 99 and minVal = 0 and maxVal = 20 and defaultVal = "- 1"]
  have w4: "parseInt [ParamPrecision \<mapsto> ''99''] ParamPrecision 0 20 (- 1) = (20, None)" by simp
  from a4 t [where vals = "[ParamPrecision \<mapsto> ''7'']" and key = ParamPrecision
      and v = "''7''" and n = 7 and minVal = 0 and maxVal = 20 and defaultVal = "- 1"]
  have w5: "parseInt [ParamPrecision \<mapsto> ''7''] ParamPrecision 0 20 (- 1) = (7, None)" by simp
  from ok o pr t [where vals = Map.empty and key = ParamPrecision and v = "[]" and n = 0
      and minVal = 0 and maxVal = 20 and defaultVal = "- 1"]
  have w6: "RequestParam.Offset (fst (parseRequestParams asciiLower Atoi ?p Map.empty ?q)) = 1000"
    and w7: "RequestParam.Precision (fst (parseRequestParams asciiLower Atoi ?p Map.empty ?q)) = 0"
    by simp_all
  from w1 w2 w3 w4 w5 w6 w7 show ?thesis by simp
qed

subsection \<open>The full parse stops at the first error\<close>

lemma first_error_None: "first_error es = None \<longleftrightarrow> (\<forall>e\<in>set es. e = None)"
  by (induction es) (auto split: option.splits)

text \<open>
  C2, as amended. Let the seven parsers be taken in the order limit, offset, bbox,
  properties, orderBy, precision, transform. When one of them fails, the full parse
  returns the error of the first one that fails, together with the struct as it stands
  at that point: the fields of the parsers before the failing one hold their results,
  and the fields of the failing parser and of every later parser hold their initial
  values (the transform field holds the nil list that the failing transform parser
  returns). So no parser after the first failure contributes anything, whatever it would
  return. The error is nil only when all seven parsers succeed, and then every field
  holds the result of its parser.
\<close>

theorem parseRequestParams_fail_fast:
  assumes pv: "paramValues = extractSingleArgs ToLower queryValues"
    and p0: "param0 =
      \<lparr>RequestParam.Limit = LimitDefault paging, Offset = 0, Precision = - 1,
       Values = paramValues, Bbox = None, Properties = None, OrderBy = None,
       TransformFuns = None\<rparr>"
    and lim: "limit = parseLimit paging paramValues"
    and off: "offset = parseInt paramValues ParamOffset 0 (LimitMax paging) 0"
    and bb: "bbox = parseBbox ParseFloat paramValues"
    and pr: "props = parseProperties paramValues"
    and ob: "orderBy = parseOrderBy ToLower paramValues"
    and pc: "precision = parseInt paramValues ParamPrecision 0 20 (- 1)"
    and tf: "transformFuns = parseTransform ToLower whitelist paramValues"
    and res: "result = parseRequestParams ToLower ParseFloat paging whitelist queryValues"
  shows "snd result =
      first_error [snd limit, snd offset, snd bbox, snd props, snd orderBy, snd precision,
        snd transformFuns]
    \<and> (snd limit \<noteq> None \<longrightarrow> result = (param0, snd limit))
    \<and> (snd limit = None \<and> snd offset \<noteq> None \<longrightarrow>
         result = (param0\<lparr>RequestParam.Limit := fst limit\<rparr>, snd offset))
    \<and> (snd limit = None \<and> snd offset = None \<and> snd bbox \<noteq> None \<longrightarrow>
         result = (param0\<lparr>RequestParam.Limit := fst limit, RequestParam.Offset := fst offset\<rparr>,
                   snd bbox))
    \<and> (snd limit = None \<and> snd offset = None \<and> snd bbox = None \<and> snd props \<noteq> None \<longrightarrow>
         result = (param0\<lparr>RequestParam.Limit := fst limit, RequestParam.Offset := fst offset,
                          RequestParam.Bbox := fst bbox\<rparr>, snd props))
    \<and> (snd limit = None \<and> snd offset = None \<and> snd bbox = None \<and> snd props = None
         \<and> snd orderBy \<noteq> None \<longrightarrow>
         result = (param0\<lparr>RequestParam.Limit := fst limit, RequestParam.Offset := fst offset,
                          RequestParam.Bbox := fst bbox, RequestParam.Properties := fst props\<rparr>,
                   snd orderBy))
    \<and> (snd limit = None \<and> snd offset = None \<and> snd bbox = None \<and> snd props = None
         \<and> snd orderBy = None \<and> snd precision \<noteq> None \<longrightarrow>
         result = (param0\<lparr>RequestParam.Limit := fst limit, RequestParam.Offset := fst offset,
                          RequestParam.Bbox := fst bbox, RequestParam.Properties := fst props,
                          RequestParam.OrderBy := fst orderBy\<rparr>, snd precision))
    \<and> (snd limit = None \<and> snd offset = None \<and> snd bbox = None \<and> snd props = None
         \<and> snd orderBy = None \<and> snd precision = None \<longrightarrow>
         result = (\<lparr>RequestParam.Limit = fst limit, Offset = fst offset,
                    Precision = fst precision, Values = paramValues, Bbox = fst bbox,
                    Properties = fst props, OrderBy = fst orderBy,
                    TransformFuns = fst transformFuns\<rparr>, snd transformFuns))
    \<and> (snd result = None \<longrightarrow>
         (\<forall>e\<in>set [snd limit, snd offset, snd bbox, snd props, snd orderBy, snd precision,
             snd transformFuns]. e = None))
    \<and> (snd transformFuns \<noteq> None \<longrightarrow> fst transformFuns = None)"
proof -
  have first: "snd result =
      first_error [snd limit, snd offset, snd bbox, snd props, snd orderBy, snd precision,
        snd transformFuns]"
    unfolding res lim off bb pr ob pc tf pv by (simp only: parseRequestParams_snd Let_def)
  have c1: "snd limit \<noteq> None \<longrightarrow> result = (param0, snd limit)"
    unfolding res lim p0 pv
    by (simp add: parseRequestParams_def Let_def split: prod.splits)
  have c2: "snd limit = None \<and> snd offset \<noteq> None \<longrightarrow>
         result = (param0\<lparr>RequestParam.Limit := fst limit\<rparr>, snd offset)"
    unfolding res lim off p0 pv
    by (simp add: parseRequestParams_def Let_def split: prod.splits)
  have c3: "snd limit = None \<and> snd offset = None \<and> snd bbox \<noteq> None \<longrightarrow>
         result = (param0\<lparr>RequestParam.Limit := fst limit, RequestParam.Offset := fst offset\<rparr>,
                   snd bbox)"
    unfolding res lim off bb p0 pv
    by (simp add: parseRequestParams_def Let_def split: prod.splits)
  have c4: "snd limit = None \<and> snd offset = None \<and> snd bbox = None \<and> snd props \<noteq> None \<longrightarrow>
         result = (param0\<lparr>RequestParam.Limit := fst limit, RequestParam.Offset := fst offset,
                          RequestParam.Bbox := fst bbox\<rparr>, snd props)"
    unfolding res lim off bb pr p0 pv
    by (simp add: parseRequestParams_def Let_def split: prod.splits)
  have c5: "snd limit = None \<and> snd offset = None \<and> snd bbox = None \<and> snd props = None
         \<and> snd orderBy \<noteq> None \<longrightarrow>
         result = (param0\<lparr>RequestParam.Limit := fst limit, RequestParam.Offset := fst offset,
                          RequestParam.Bbox := fst bbox, RequestParam.Properties := fst props\<rparr>,
                   snd orderBy)"
    unfolding res lim off bb pr ob p0 pv
    by (simp add: parseRequestParams_def Let_def split: prod.splits)
  have c6: "snd limit = None \<and> snd offset = None \<and> snd bbox = None \<and> snd props = None
         \<and> snd orderBy = None \<and> snd precision \<noteq> None \<longrightarrow>
         result = (param0\<lparr>RequestParam.Limit := fst limit, RequestParam.Offset := fst offset,
                          RequestParam.Bbox := fst bbox, RequestParam.Properties := fst props,
                          RequestParam.OrderBy := fst orderBy\<rparr>, snd precision)"
    unfolding res lim off bb pr ob pc p0 pv
    by (simp add: parseRequestParams_def Let_def split: prod.splits)
  have c7: "snd limit = None \<and> snd offset = None \<and> snd bbox = None \<and> snd props = None
         \<and> snd orderBy = None \<and> snd precision = None \<longrightarrow>
         result = (\<lparr>RequestParam.Limit = fst limit, Offset = fst offset,
                    Precision = fst precision, Values = paramValues, Bbox = fst bbox,
                    Properties = fst props, OrderBy = fst orderBy,
                    TransformFuns = fst transformFuns\<rparr>, snd transformFuns)"
    unfolding res lim off bb pr ob pc tf pv
    by (simp add: parseRequestParams_def Let_def split: prod.splits)
  have c8: "snd result = None \<longrightarrow>
         (\<forall>e\<in>set [snd limit, snd offset, snd bbox, snd props, snd orderBy, snd precision,
             snd transformFuns]. e = None)"
    using first by (simp only: first_error_None) simp
  have c9: "snd transformFuns \<noteq> None \<longrightarrow> fst transformFuns = None"
  proof -
    have "snd (parseTransform_loop ToLower whitelist ds acc) \<noteq> None \<longrightarrow>
        fst (parseTransform_loop ToLower whitelist ds acc) = None" for ds acc
      by (induction ds arbitrary: acc) (simp_all add: Let_def)
    then show ?thesis unfolding tf by (simp add: parseTransform_def Let_def)
  qed
  from first c1 c2 c3 c4 c5 c6 c7 c8 c9 show ?thesis by blast
qed

text \<open>With default 10 and maximum 1000, the request \<^verbatim>\<open>Limit=5&offset=x&precision=7&bbox=1,2,3\<close>
  returns the error of the offset, the parsed limit 5, and the initial precision -1 and
  nil box; the request \<^verbatim>\<open>Limit=5&transform=buffer,10\<close> returns no error and both parsed
  values.\<close>

theorem parseRequestParams_fail_fast_witness:
  "snd (parseRequestParams asciiLower Atoi \<lparr>LimitDefault = 10, LimitMax = 1000\<rparr>
          (initTransforms asciiLower [''ST_Buffer''])
          [(''Limit'', [''5'']), (''offset'', [''x'']), (''precision'', [''7'']),
           (''bbox'', [''1,2,3''])])
     = Some (InvalidParameterValue ParamOffset ''x'')
   \<and> RequestParam.Limit (fst (parseRequestParams asciiLower Atoi \<lparr>LimitDefault = 10, LimitMax = 1000\<rparr>
          (initTransforms asciiLower [''ST_Buffer''])
          [(''Limit'', [''5'']), (''offset'', [''x'']), (''precision'', [''7'']),
           (''bbox'', [''1,2,3''])])) = 5
   \<and> RequestParam.Precision (fst (parseRequestParams asciiLower Atoi \<lparr>LimitDefault = 10, LimitMax = 1000\<rparr>
          (initTransforms asciiLower [''ST_Buffer''])
          [(''Limit'', [''5'']), (''offset'', [''x'']), (''precision'', [''7'']),
           (''bbox'', [''1,2,3''])])) = - 1
   \<and> RequestParam.Bbox (fst (parseRequestParams asciiLower Atoi \<lparr>LimitDefault = 10, LimitMax = 1000\<rparr>
          (initTransforms asciiLower [''ST_Buffer''])
          [(''Limit'', [''5'']), (''offset'', [''x'']), (''precision'', [''7'']),
           (''bbox'', [''1,2,3''])])) = None
   \<and> snd (parseRequestParams asciiLower Atoi \<lparr>LimitDefault = 10, LimitMax = 1000\<rparr>
          (initTransforms asciiLower [''ST_Buffer''])
          [(''Limit'', [''5'']), (''transform'', [''buffer,10''])]) = None
   \<and> RequestParam.Limit (fst (parseRequestParams asciiLower Atoi \<lparr>LimitDefault = 10, LimitMax = 1000\<rparr>
          (initTransforms asciiLower [''ST_Buffer''])
          [(''Limit'', [''5'']), (''transform'', [''buffer,10''])])) = 5
   \<and> RequestParam.TransformFuns (fst (parseRequestParams asciiLower Atoi
          \<lparr>LimitDefault = 10, LimitMax = 1000\<rparr> (initTransforms asciiLower [''ST_Buffer''])
          [(''Limit'', [''5'']), (''transform'', [''buffer,10''])]))
       = Some [\<lparr>TransformFunction.Name = ''ST_Buffer'', Arg = [''10'']\<rparr>]"
proof -
  let ?p = "\<lparr>LimitDefault = 10, LimitMax = 1000\<rparr>"
  let ?wl = "initTransforms asciiLower [''ST_Buffer'']"
  let ?bad = "[(''Limit'', [''5'']), (''offset'', [''x'']), (''precision'', [''7'']),
           (''bbox'', [''1,2,3''])]"
  let ?good = "[(''Limit'', [''5'']), (''transform'', [''buffer,10''])]"
  let ?pb = "extractSingleArgs asciiLower ?bad"
  let ?pg = "extractSingleArgs asciiLower ?good"
  have b1: "parseLimit ?p ?pb = (5, None)" by code_simp
  have b2: "snd (parseInt ?pb ParamOffset 0 (LimitMax ?p) 0)
      = Some (InvalidParameterValue ParamOffset ''x'')" by code_simp
  note tb = parseRequestParams_fail_fast [where ToLower = asciiLower and queryValues = ?bad
      and paging = ?p and ParseFloat = Atoi and whitelist = ?wl,
      OF refl refl refl refl refl refl refl refl refl refl]
  from b1 b2 tb [THEN conjunct2, THEN conjunct2, THEN conjunct1]
  have rb: "parseRequestParams asciiLower Atoi ?p ?wl ?bad =
      (\<lparr>RequestParam.Limit = LimitDefault ?p, Offset = 0, Precision = - 1,
        Values = ?pb, Bbox = None, Properties = None, OrderBy = None,
        TransformFuns = None\<rparr>\<lparr>RequestParam.Limit := 5\<rparr>,
       Some (InvalidParameterValue ParamOffset ''x''))"
    by simp
  have g1: "parseLimit ?p ?pg = (5, None)" by code_simp
  have g2: "snd (parseInt ?pg ParamOffset 0 (LimitMax ?p) 0) = None" by code_simp
  have g3: "snd (parseBbox Atoi ?pg) = None" by code_simp
  have g4: "snd (parseProperties ?pg) = None" by code_simp
  have g5: "snd (parseOrderBy asciiLower ?pg) = None" by code_simp
  have g6: "snd (parseInt ?pg ParamPrecision 0 20 (- 1)) = None" by code_simp
  have g7: "parseTransform asciiLower ?wl ?pg
      = (Some [\<lparr>TransformFunction.Name = ''ST_Buffer'', Arg = [''10'']\<rparr>], None)" by code_simp
  note tg = parseRequestParams_fail_fast [where ToLower = asciiLower and queryValues = ?good
      and paging = ?p and ParseFloat = Atoi and whitelist = ?wl,
      OF refl refl refl refl refl refl refl refl refl refl]
  from g1 g2 g3 g4 g5 g6 g7
    tg [THEN conjunct2, THEN conjunct2, THEN conjunct2, THEN conjunct2, THEN conjunct2,
        THEN conjunct2, THEN conjunct2, THEN conjunct1]
  have rg: "parseRequestParams asciiLower Atoi ?p ?wl ?good =
      (\<lparr>RequestParam.Limit = 5,
        Offset = fst (parseInt ?pg ParamOffset 0 (LimitMax ?p) 0),
        Precision = fst (parseInt ?pg ParamPrecision 0 20 (- 1)), Values = ?pg,
        Bbox = fst (parseBbox Atoi ?pg), Properties = fst (parseProperties ?pg),
        OrderBy = fst (parseOrderBy asciiLower ?pg),
        TransformFuns = Some [\<lparr>TransformFunction.Name = ''ST_Buffer'', Arg = [''10'']\<rparr>]\<rparr>,
       None)"
    by simp
  from rb rg show ?thesis by simp
qed

text \<open>C2 as the spec states it fails: with the same configuration, the request
  \<^verbatim>\<open>Limit=5&offset=x\<close> returns, next to the error of the offset, a struct whose limit is the
  parsed 5 and not the initial default 10.\<close>

theorem parseRequestParams_fail_fast_counterexample:
  "snd (parseRequestParams asciiLower Atoi \<lparr>LimitDefault = 10, LimitMax = 1000\<rparr> Map.empty
          [(''Limit'', [''5'']), (''offset'', [''x''])])
     = Some (InvalidParameterValue ParamOffset ''x'')
   \<and> RequestParam.Limit (fst (parseRequestParams asciiLower Atoi \<lparr>LimitDefault = 10, LimitMax = 1000\<rparr>
          Map.empty [(''Limit'', [''5'']), (''offset'', [''x''])])) = 5
   \<and> RequestParam.Limit (fst (parseRequestParams asciiLower Atoi \<lparr>LimitDefault = 10, LimitMax = 1000\<rparr>
          Map.empty [(''Limit'', [''5'']), (''offset'', [''x''])]))
       \<noteq> LimitDefault \<lparr>LimitDefault = 10, LimitMax = 1000\<rparr>"
  by code_simp

subsection \<open>The properties parser\<close>

text \<open>
  C6. The properties parser never returns an error. It returns nil when the parameter
  is absent, the empty non-nil sequence when the value is empty, and for a non-empty
  value the pieces of the value between its commas, in order: the sequence is not empty,
  joining it with commas gives the value back byte for byte (nothing is removed,
  reordered or changed in case), and no piece contains a comma.
\<close>

theorem parseProperties_three_states:
  "snd (parseProperties vals) = None
   \<and> (vals ParamProperties = None \<longrightarrow> fst (parseProperties vals) = None)
   \<and> (vals ParamProperties = Some [] \<longrightarrow>
        fst (parseProperties vals) = Some [] \<and> fst (parseProperties vals) \<noteq> None)
   \<and> (vals ParamProperties = Some v \<and> v \<noteq> [] \<longrightarrow>
        fst (parseProperties vals) = Some (Split v '','')
        \<and> Split v '','' \<noteq> []
        \<and> Join (Split v '','') '','' = v
        \<and> (\<forall>name\<in>set (Split v '',''). CHR '','' \<notin> set name))"
proof (intro conjI impI)
  show "snd (parseProperties vals) = None"
    by (simp add: parseProperties_def Let_def split: option.splits)
next
  assume "vals ParamProperties = None"
  then show "fst (parseProperties vals) = None" by (simp add: parseProperties_def)
next
  assume e: "vals ParamProperties = Some []"
  then show "fst (parseProperties vals) = Some []" by (simp add: parseProperties_def)
  then show "fst (parseProperties vals) \<noteq> None" by simp
next
  assume "vals ParamProperties = Some v \<and> v \<noteq> []"
  then show "fst (parseProperties vals) = Some (Split v '','')"
    by (simp add: parseProperties_def Let_def)
next
  show "Split v '','' \<noteq> []" by (simp add: Split_not_Nil)
next
  show "Join (Split v '','') '','' = v" by (simp add: Split_Join)
next
  show "\<forall>name\<in>set (Split v '',''). CHR '','' \<notin> set name"
  proof
    fix name assume "name \<in> set (Split v '','')"
    then have "Index name '','' = None" by (simp add: Split_pieces)
    with Index_char_None [of name "CHR '',''"] show "CHR '','' \<notin> set name" by simp
  qed
qed

text \<open>No parameter gives nil, \<^verbatim>\<open>properties=\<close> gives the empty sequence, and
  \<^verbatim>\<open>properties=Name,FOO,Name\<close> keeps the case and the duplicate.\<close>

theorem parseProperties_three_states_witness:
  "fst (parseProperties Map.empty) = None
   \<and> fst (parseProperties [ParamProperties \<mapsto> []]) = Some []
   \<and> fst (parseProperties [ParamProperties \<mapsto> ''Name,FOO,Name''])
        = Some [''Name'', ''FOO'', ''Name'']"
proof -
  have sp: "Split ''Name,FOO,Name'' '','' = [''Name'', ''FOO'', ''Name'']" by code_simp
  from parseProperties_three_states [where vals = Map.empty and v = "[]"]
  have w1: "fst (parseProperties Map.empty) = None" by simp
  from parseProperties_three_states [where vals = "[ParamProperties \<mapsto> []]" and v = "[]"]
  have w2: "fst (parseProperties [ParamProperties \<mapsto> []]) = Some []" by simp
  from sp parseProperties_three_states
    [where vals = "[ParamProperties \<mapsto> ''Name,FOO,Name'']" and v = "''Name,FOO,Name''"]
  have w3: "fst (parseProperties [ParamProperties \<mapsto> ''Name,FOO,Name''])
        = Some [''Name'', ''FOO'', ''Name'']" by simp
  from w1 w2 w3 show ?thesis by simp
qed

subsection \<open>The bounding box parser\<close>

lemma length_4_elems: "length xs = 4 \<Longrightarrow> \<exists>a b c d. xs = [a, b, c, d]"
  by (auto simp: numeral_eq_Suc length_Suc_conv)

lemma parseBbox_absent:
  "index_map vals ParamBbox = [] \<Longrightarrow> parseBbox ParseFloat vals = (None, None)"
  by (simp add: parseBbox_def)

lemma parseBbox_four:
  "index_map vals ParamBbox = v \<Longrightarrow> v \<noteq> [] \<Longrightarrow> Split v '','' = [a, b, c, d] \<Longrightarrow>
   parseBbox ParseFloat vals =
     (case (ParseFloat a, ParseFloat b, ParseFloat c, ParseFloat d) of
        (Some minLon, Some minLat, Some maxLon, Some maxLat) \<Rightarrow>
          (Some \<lparr>Minx = minLon, Miny = minLat, Maxx = maxLon, Maxy = maxLat\<rparr>, None)
      | _ \<Rightarrow> (None, Some (InvalidParameterValue ParamBbox v)))"
  by (simp add: parseBbox_def Let_def)

lemma parseBbox_count:
  "index_map vals ParamBbox = v \<Longrightarrow> v \<noteq> [] \<Longrightarrow> length (Split v '','') \<noteq> 4 \<Longrightarrow>
   parseBbox ParseFloat vals = (None, Some (InvalidParameterValue ParamBbox v))"
  by (simp add: parseBbox_def Let_def)

text \<open>
  C8, as amended. The bounding box parser returns nil and no error when the parameter is
  absent or its value is empty. For a non-empty value it returns an error exactly when
  the comma split of the value does not have four elements or \<open>ParseFloat\<close> rejects one of
  them; the error is always the one \<open>InvalidParameterValue\<close> of the parameter name and the
  whole raw value, and comes with a nil box. Otherwise it returns the \<open>Extent\<close> of the four
  parsed numbers, whatever they are: nothing compares or bounds them.
\<close>

theorem parseBbox_cases:
  "(vals ParamBbox = None \<or> vals ParamBbox = Some [] \<longrightarrow>
      parseBbox ParseFloat vals = (None, None))
   \<and> (vals ParamBbox = Some v \<and> v \<noteq> [] \<longrightarrow>
      (snd (parseBbox ParseFloat vals) \<noteq> None \<longleftrightarrow>
         length (Split v '','') \<noteq> 4 \<or> (\<exists>x\<in>set (Split v '',''). ParseFloat x = None))
      \<and> (snd (parseBbox ParseFloat vals) \<noteq> None \<longrightarrow>
         parseBbox ParseFloat vals = (None, Some (InvalidParameterValue ParamBbox v)))
      \<and> (Split v '','' = [a, b, c, d] \<and> ParseFloat a = Some minLon \<and> ParseFloat b = Some minLat
           \<and> ParseFloat c = Some maxLon \<and> ParseFloat d = Some maxLat \<longrightarrow>
         parseBbox ParseFloat vals =
           (Some \<lparr>Minx = minLon, Miny = minLat, Maxx = maxLon, Maxy = maxLat\<rparr>, None)))"
proof (intro conjI impI)
  assume "vals ParamBbox = None \<or> vals ParamBbox = Some []"
  then show "parseBbox ParseFloat vals = (None, None)"
    by (simp add: parseBbox_absent index_map_empty_iff)
next
  assume p: "vals ParamBbox = Some v \<and> v \<noteq> []"
  then have v: "index_map vals ParamBbox = v" "v \<noteq> []" by (simp_all add: index_map_Some)
  show "snd (parseBbox ParseFloat vals) \<noteq> None \<longleftrightarrow>
         length (Split v '','') \<noteq> 4 \<or> (\<exists>x\<in>set (Split v '',''). ParseFloat x = None)"
  proof (cases "length (Split v '','') = 4")
    case False
    with parseBbox_count [OF v, where ParseFloat = ParseFloat] show ?thesis by simp
  next
    case True
    from length_4_elems [OF True] obtain a b c d where s: "Split v '','' = [a, b, c, d]" by blast
    from parseBbox_four [OF v s, where ParseFloat = ParseFloat] s show ?thesis
      by (auto split: option.splits)
  qed
next
  assume p: "vals ParamBbox = Some v \<and> v \<noteq> []"
    and e: "snd (parseBbox ParseFloat vals) \<noteq> None"
  from p have v: "index_map vals ParamBbox = v" "v \<noteq> []" by (simp_all add: index_map_Some)
  show "parseBbox ParseFloat vals = (None, Some (InvalidParameterValue ParamBbox v))"
  proof (cases "length (Split v '','') = 4")
    case False
    with parseBbox_count [OF v, where ParseFloat = ParseFloat] show ?thesis by simp
  next
    case True
    from length_4_elems [OF True] obtain a b c d where s: "Split v '','' = [a, b, c, d]" by blast
    from parseBbox_four [OF v s, where ParseFloat = ParseFloat] e show ?thesis
      by (auto split: option.splits)
  qed
next
  assume p: "vals ParamBbox = Some v \<and> v \<noteq> []"
    and s: "Split v '','' = [a, b, c, d] \<and> ParseFloat a = Some minLon \<and> ParseFloat b = Some minLat
           \<and> ParseFloat c = Some maxLon \<and> ParseFloat d = Some maxLat"
  from p have v: "index_map vals ParamBbox = v" "v \<noteq> []" by (simp_all add: index_map_Some)
  from s have sp: "Split v '','' = [a, b, c, d]" by simp
  from parseBbox_four [OF v sp, where ParseFloat = ParseFloat] s
  show "parseBbox ParseFloat vals =
           (Some \<lparr>Minx = minLon, Miny = minLat, Maxx = maxLon, Maxy = maxLat\<rparr>, None)"
    by simp
qed

text \<open>With \<open>Atoi\<close> standing in for the number parser: no parameter gives nil; \<^verbatim>\<open>bbox=1,2,3\<close>
  and \<^verbatim>\<open>bbox=a,2,3,4\<close> fail with the whole value in the error; \<^verbatim>\<open>bbox=4,3,2,1\<close>, an
  inverted box, is returned as it is.\<close>

theorem parseBbox_cases_witness:
  "parseBbox Atoi Map.empty = (None, None)
   \<and> parseBbox Atoi [ParamBbox \<mapsto> ''1,2,3''] = (None, Some (InvalidParameterValue ParamBbox ''1,2,3''))
   \<and> parseBbox Atoi [ParamBbox \<mapsto> ''a,2,3,4''] = (None, Some (InvalidParameterValue ParamBbox ''a,2,3,4''))
   \<and> parseBbox Atoi [ParamBbox \<mapsto> ''4,3,2,1'']
       = (Some \<lparr>Minx = 4, Miny = 3, Maxx = 2, Maxy = 1\<rparr>, None)"
proof -
  have s1: "length (Split ''1,2,3'' '','') \<noteq> 4" by code_simp
  have s2: "\<exists>x\<in>set (Split ''a,2,3,4'' '',''). Atoi x = None" by code_simp
  have s3: "Split ''4,3,2,1'' '','' = [''4'', ''3'', ''2'', ''1'']" by code_simp
  have n: "Atoi ''4'' = Some 4" "Atoi ''3'' = Some 3" "Atoi ''2'' = Some 2" "Atoi ''1'' = Some 1"
    by code_simp+
  note t = parseBbox_cases [where ParseFloat = Atoi and a = "''4''" and b = "''3''" and c = "''2''"
      and d = "''1''" and minLon = 4 and minLat = 3 and maxLon = 2 and maxLat = 1]
  from t [where vals = Map.empty and v = "[]"]
  have w1: "parseBbox Atoi Map.empty = (None, None)" by simp
  from s1 t [where vals = "[ParamBbox \<mapsto> ''1,2,3'']" and v = "''1,2,3''"]
  have w2: "parseBbox Atoi [ParamBbox \<mapsto> ''1,2,3'']
       = (None, Some (InvalidParameterValue ParamBbox ''1,2,3''))" by simp
  from s2 t [where vals = "[ParamBbox \<mapsto> ''a,2,3,4'']" and v = "''a,2,3,4''"]
  have w3: "parseBbox Atoi [ParamBbox \<mapsto> ''a,2,3,4'']
       = (None, Some (InvalidParameterValue ParamBbox ''a,2,3,4''))" by simp
  from s3 n t [where vals = "[ParamBbox \<mapsto> ''4,3,2,1'']" and v = "''4,3,2,1''"]
  have w4: "parseBbox Atoi [ParamBbox \<mapsto> ''4,3,2,1'']
       = (Some \<lparr>Minx = 4, Miny = 3, Maxx = 2, Maxy = 1\<rparr>, None)" by simp
  from w1 w2 w3 w4 show ?thesis by simp
qed

text \<open>C8 as the spec states it fails for a parameter that is present with an empty
  value: for \<^verbatim>\<open>bbox=\<close> the comma split of the value has one element, not four, and yet the
  parser returns nil and no error.\<close>

theorem parseBbox_cases_counterexample:
  "[ParamBbox \<mapsto> ([] :: string)] ParamBbox = Some []
   \<and> length (Split ([] :: string) '','') = 1
   \<and> parseBbox Atoi [ParamBbox \<mapsto> ([] :: string)] = (None, None)"
  by code_simp

subsection \<open>The ordering parser\<close>

lemma OrderByDirSep_not_Nil: "OrderByDirSep \<noteq> []"
  by (simp add: OrderByDirSep_def)

lemma parseOrderBy_absent:
  "index_map vals ParamOrderBy = [] \<Longrightarrow> parseOrderBy ToLower vals = (None, None)"
  by (simp add: parseOrderBy_def)

lemma parseOrderBy_no_sep:
  assumes "index_map vals ParamOrderBy = v" and "v \<noteq> []"
    and "Index (ToLower v) OrderByDirSep = None"
  shows "parseOrderBy ToLower vals = (Some [\<lparr>Ordering.Name = ToLower v, IsDesc = False\<rparr>], None)"
  using assms
  by (simp add: parseOrderBy_def Let_def Split_no_sep OrderByDirSep_not_Nil
      append_slice_def elems_def)

lemma parseOrderBy_sep:
  assumes "index_map vals ParamOrderBy = v" and "v \<noteq> []"
    and "Index (ToLower v) OrderByDirSep = Some m"
    and "rest = drop (m + length OrderByDirSep) (ToLower v)"
    and "dir = (case Index rest OrderByDirSep of None \<Rightarrow> rest | Some k \<Rightarrow> take k rest)"
  shows "parseOrderBy ToLower vals =
     (if dir = OrderByDirD
      then (Some [\<lparr>Ordering.Name = take m (ToLower v), IsDesc = True\<rparr>], None)
      else if dir = OrderByDirA
      then (Some [\<lparr>Ordering.Name = take m (ToLower v), IsDesc = False\<rparr>], None)
      else (None, Some (InvalidParameterValue ParamOrderBy dir)))"
proof -
  note sep = OrderByDirSep_not_Nil
  from assms(3) have two: "2 \<le> length (Split (ToLower v) OrderByDirSep)"
    by (simp add: Split_length_2 [OF sep])
  from assms(3) have name: "Split (ToLower v) OrderByDirSep ! 0 = take m (ToLower v)"
    by (simp add: Split_hd [OF sep])
  from assms(3,4) have "Split (ToLower v) OrderByDirSep ! 1 = Split rest OrderByDirSep ! 0"
    by (simp add: Split_sep [OF sep])
  with assms(5) have dir: "Split (ToLower v) OrderByDirSep ! 1 = dir"
    by (simp add: Split_hd [OF sep])
  from assms(1,2) two name dir show ?thesis
    by (simp add: parseOrderBy_def Let_def parseOrderByDir_def append_slice_def elems_def)
qed

text \<open>
  C9, as amended. The ordering parser returns the nil (empty) sequence when the parameter
  is absent or its value is empty. For a non-empty value it works on the lower-cased
  value. Without a separator in it the result is the single ascending entry for the whole
  lower-cased value. With a separator the name is the part before the first separator and
  the direction is the part after it, up to the next separator if there is one: the
  descending token gives a descending entry, the ascending token an ascending one, and
  any other direction fails with \<open>InvalidParameterValue\<close> of the parameter name and that
  direction, with a nil sequence. The result never has more than one entry.
\<close>

theorem parseOrderBy_cases:
  "(vals ParamOrderBy = None \<or> vals ParamOrderBy = Some [] \<longrightarrow>
      parseOrderBy ToLower vals = (None, None) \<and> len (fst (parseOrderBy ToLower vals)) = 0)
   \<and> (vals ParamOrderBy = Some v \<and> v \<noteq> [] \<and> Index (ToLower v) OrderByDirSep = None \<longrightarrow>
      parseOrderBy ToLower vals = (Some [\<lparr>Ordering.Name = ToLower v, IsDesc = False\<rparr>], None))
   \<and> (vals ParamOrderBy = Some v \<and> v \<noteq> [] \<and> Index (ToLower v) OrderByDirSep = Some m
        \<and> rest = drop (m + length OrderByDirSep) (ToLower v)
        \<and> dir = (case Index rest OrderByDirSep of None \<Rightarrow> rest | Some k \<Rightarrow> take k rest) \<longrightarrow>
      parseOrderBy ToLower vals =
        (if dir = OrderByDirD
         then (Some [\<lparr>Ordering.Name = take m (ToLower v), IsDesc = True\<rparr>], None)
         else if dir = OrderByDirA
         then (Some [\<lparr>Ordering.Name = take m (ToLower v), IsDesc = False\<rparr>], None)
         else (None, Some (InvalidParameterValue ParamOrderBy dir))))
   \<and> len (fst (parseOrderBy ToLower vals)) \<le> 1"
proof (intro conjI impI)
  assume "vals ParamOrderBy = None \<or> vals ParamOrderBy = Some []"
  then show "parseOrderBy ToLower vals = (None, None)"
    by (simp add: parseOrderBy_absent index_map_empty_iff)
  then show "len (fst (parseOrderBy ToLower vals)) = 0" by (simp add: len_def elems_def)
next
  assume "vals ParamOrderBy = Some v \<and> v \<noteq> [] \<and> Index (ToLower v) OrderByDirSep = None"
  then show "parseOrderBy ToLower vals = (Some [\<lparr>Ordering.Name = ToLower v, IsDesc = False\<rparr>], None)"
    by (simp add: parseOrderBy_no_sep index_map_Some)
next
  assume a: "vals ParamOrderBy = Some v \<and> v \<noteq> [] \<and> Index (ToLower v) OrderByDirSep = Some m
        \<and> rest = drop (m + length OrderByDirSep) (ToLower v)
        \<and> dir = (case Index rest OrderByDirSep of None \<Rightarrow> rest | Some k \<Rightarrow> take k rest)"
  then have "index_map vals ParamOrderBy = v" by (simp add: index_map_Some)
  with a parseOrderBy_sep [where vals = vals and v = v and m = m and rest = rest and dir = dir and ToLower = ToLower]
  show "parseOrderBy ToLower vals =
        (if dir = OrderByDirD
         then (Some [\<lparr>Ordering.Name = take m (ToLower v), IsDesc = True\<rparr>], None)
         else if dir = OrderByDirA
         then (Some [\<lparr>Ordering.Name = take m (ToLower v), IsDesc = False\<rparr>], None)
         else (None, Some (InvalidParameterValue ParamOrderBy dir)))"
    by blast
next
  show "len (fst (parseOrderBy ToLower vals)) \<le> 1"
    by (simp add: parseOrderBy_def Let_def parseOrderByDir_def append_slice_def elems_def len_def)
qed


text \<open>No parameter gives nil; \<^verbatim>\<open>orderby=Name\<close> gives the ascending entry for \<open>name\<close>;
  \<^verbatim>\<open>orderby=Name:D\<close> gives the descending entry for \<open>name\<close>; \<^verbatim>\<open>orderby=name:x\<close> fails.\<close>

theorem parseOrderBy_cases_witness:
  "parseOrderBy asciiLower Map.empty = (None, None)
   \<and> parseOrderBy asciiLower [ParamOrderBy \<mapsto> ''Name'']
       = (Some [\<lparr>Ordering.Name = ''name'', IsDesc = False\<rparr>], None)
   \<and> parseOrderBy asciiLower [ParamOrderBy \<mapsto> ''Name:D'']
       = (Some [\<lparr>Ordering.Name = ''name'', IsDesc = True\<rparr>], None)
   \<and> parseOrderBy asciiLower [ParamOrderBy \<mapsto> ''name:x'']
       = (None, Some (InvalidParameterValue ParamOrderBy ''x''))"
proof -
  have l1: "asciiLower ''Name'' = ''name''" by code_simp
  have i1: "Index (asciiLower ''Name'') OrderByDirSep = None" by code_simp
  have l2: "take 4 (asciiLower ''Name:D'') = ''name''" by code_simp
  have i2: "Index (asciiLower ''Name:D'') OrderByDirSep = Some 4" by code_simp
  have r2: "''d'' = drop (4 + length OrderByDirSep) (asciiLower ''Name:D'')" by code_simp
  have d2: "''d'' = (case Index ''d'' OrderByDirSep of None \<Rightarrow> ''d'' | Some k \<Rightarrow> take k ''d'')"
    by code_simp
  have l3: "take 4 (asciiLower ''name:x'') = ''name''" by code_simp
  have i3: "Index (asciiLower ''name:x'') OrderByDirSep = Some 4" by code_simp
  have r3: "''x'' = drop (4 + length OrderByDirSep) (asciiLower ''name:x'')" by code_simp
  have d3: "''x'' = (case Index ''x'' OrderByDirSep of None \<Rightarrow> ''x'' | Some k \<Rightarrow> take k ''x'')"
    by code_simp
  from parseOrderBy_cases [where ToLower = asciiLower and vals = Map.empty and v = "[]" and m = 0 and rest = "[]" and dir = "[]"]
  have w1: "parseOrderBy asciiLower Map.empty = (None, None)" by simp
  from l1 i1 parseOrderBy_cases [where ToLower = asciiLower and vals = "[ParamOrderBy \<mapsto> ''Name'']" and v = "''Name''"
      and m = 0 and rest = "[]" and dir = "[]"]
  have w2: "parseOrderBy asciiLower [ParamOrderBy \<mapsto> ''Name'']
       = (Some [\<lparr>Ordering.Name = ''name'', IsDesc = False\<rparr>], None)" by simp
  from l2 i2 r2 d2 parseOrderBy_cases [where ToLower = asciiLower and vals = "[ParamOrderBy \<mapsto> ''Name:D'']"
      and v = "''Name:D''" and m = 4 and rest = "''d''" and dir = "''d''"]
  have w3: "parseOrderBy asciiLower [ParamOrderBy \<mapsto> ''Name:D'']
       = (Some [\<lparr>Ordering.Name = ''name'', IsDesc = True\<rparr>], None)"
    by (simp add: OrderByDirD_def OrderByDirA_def)
  from l3 i3 r3 d3 parseOrderBy_cases [where ToLower = asciiLower and vals = "[ParamOrderBy \<mapsto> ''name:x'']"
      and v = "''name:x''" and m = 4 and rest = "''x''" and dir = "''x''"]
  have w4: "parseOrderBy asciiLower [ParamOrderBy \<mapsto> ''name:x'']
       = (None, Some (InvalidParameterValue ParamOrderBy ''x''))"
    by (simp add: OrderByDirD_def OrderByDirA_def)
  from w1 w2 w3 w4 show ?thesis by simp
qed

text \<open>C9 as the spec states it fails for a parameter that is present with an empty
  value: for \<^verbatim>\<open>orderby=\<close> the lower-cased value has no separator, so the stated rule gives
  the one ascending entry for the value, and yet the parser returns the nil sequence.\<close>

theorem parseOrderBy_cases_counterexample:
  "[ParamOrderBy \<mapsto> ([] :: string)] ParamOrderBy = Some []
   \<and> Split (asciiLower []) OrderByDirSep = [[]]
   \<and> parseOrderBy asciiLower [ParamOrderBy \<mapsto> ([] :: string)] = (None, None)"
  by code_simp

subsection \<open>Resolving the requested properties\<close>

lemma toNameSet_loop_dom:
  "toNameSet_loop ToLower strs nameSet c \<noteq> None \<longleftrightarrow>
     nameSet c \<noteq> None \<or> c \<in> ToLower ` set strs"
  by (induction strs arbitrary: nameSet) (auto simp: Let_def)

lemma toNameSet_dom: "toNameSet ToLower strs c \<noteq> None \<longleftrightarrow> c \<in> ToLower ` set strs"
  by (simp add: toNameSet_def toNameSet_loop_dom del: not_None_eq)

lemma normalizePropNames_loop_elems:
  "elems (normalizePropNames_loop nameSet cols propNames)
     = elems propNames @ filter (\<lambda>c. nameSet c \<noteq> None) cols"
  by (induction cols arbitrary: propNames) (simp_all add: append_slice_def elems_def)

lemma normalizePropNames_loop_nil:
  "normalizePropNames_loop nameSet cols propNames = None \<longleftrightarrow>
     propNames = None \<and> filter (\<lambda>c. nameSet c \<noteq> None) cols = []"
  by (induction cols arbitrary: propNames) (simp_all add: append_slice_def)

lemma normalizePropNames_elems:
  "names \<noteq> [] \<Longrightarrow>
   elems (normalizePropNames ToLower (Some names) colNames)
     = filter (\<lambda>c. c \<in> ToLower ` set names) (elems colNames)"
proof -
  assume "names \<noteq> []"
  then have "elems (normalizePropNames ToLower (Some names) colNames)
     = filter (\<lambda>c. toNameSet ToLower names c \<noteq> None) (elems colNames)"
    by (simp add: normalizePropNames_def normalizePropNames_loop_elems del: not_None_eq)
      (simp add: elems_def)
  then show ?thesis by (simp only: toNameSet_dom)
qed

lemma normalizePropNames_nil:
  "names \<noteq> [] \<Longrightarrow>
   normalizePropNames ToLower (Some names) colNames = None \<longleftrightarrow>
     filter (\<lambda>c. c \<in> ToLower ` set names) (elems colNames) = []"
proof -
  assume "names \<noteq> []"
  then have "normalizePropNames ToLower (Some names) colNames = None \<longleftrightarrow>
     filter (\<lambda>c. toNameSet ToLower names c \<noteq> None) (elems colNames) = []"
    by (simp add: normalizePropNames_def normalizePropNames_loop_nil del: not_None_eq)
  then show ?thesis by (simp only: toNameSet_dom)
qed

lemma unmatched_up_to_case:
  assumes idem: "\<forall>s. ToLower (ToLower s) = ToLower s"
    and "\<forall>c\<in>set cols. \<forall>name\<in>set names. ToLower name \<noteq> ToLower c"
  shows "\<forall>c\<in>set cols. \<forall>name\<in>set names. c \<noteq> ToLower name"
proof (intro ballI notI)
  fix c name
  assume c: "c \<in> set cols" and n: "name \<in> set names" and eq: "c = ToLower name"
  from eq idem have "ToLower name = ToLower c" by simp
  moreover from assms(2) c n have "ToLower name \<noteq> ToLower c" by blast
  ultimately show False by simp
qed

text \<open>What the code selects, and where it is the projection of the spec: a catalog name
  is selected when it equals the lower-cased form of a requested name, which is the
  case-insensitive match as long as the catalog names are in lower case themselves.\<close>

lemma normalizePropNames_lower_case_catalog:
  assumes low: "\<forall>c\<in>set (elems colNames). ToLower c = c"
  shows "elems (normalizePropNames ToLower requestNames colNames)
          = projection_spec ToLower requestNames (elems colNames)"
proof (cases requestNames)
  case None
  then show ?thesis by (simp add: normalizePropNames_def projection_spec_def)
next
  case (Some names)
  show ?thesis
  proof (cases "names = []")
    case True
    with Some show ?thesis
      by (simp add: normalizePropNames_def projection_spec_def elems_def)
  next
    case False
    have "filter (\<lambda>c. c \<in> ToLower ` set names) (elems colNames)
        = filter (\<lambda>c. list_ex (\<lambda>name. ToLower name = ToLower c) names) (elems colNames)"
    proof (rule filter_cong [OF refl])
      fix c assume "c \<in> set (elems colNames)"
      with low have "ToLower c = c" by simp
      then show "(c \<in> ToLower ` set names)
          = list_ex (\<lambda>name. ToLower name = ToLower c) names"
        by (auto simp: list_ex_iff)
    qed
    with Some normalizePropNames_elems [OF False, of ToLower colNames] show ?thesis
      by (simp add: projection_spec_def)
  qed
qed

text \<open>
  C1. The code does not do what the spec says when a catalog name has a capital letter.
  Take any lower-casing function that maps \<open>Name\<close> to \<open>name\<close>, \<open>FOO\<close> to \<open>foo\<close> and \<open>bar\<close> to
  itself, as \<^verbatim>\<open>strings.ToLower\<close> does. For the catalog \<open>Name\<close>, \<open>bar\<close> and the request
  \<^verbatim>\<open>properties=Name,FOO\<close> the code selects no column and returns nil, although the request
  names the first column exactly and the case-insensitive intersection of the spec is
  \<open>Name\<close>: \<open>toNameSet\<close> lower-cases the requested names, and the loop looks the catalog name
  up without lower-casing it.
\<close>

theorem normalizePropNames_capital_column:
  assumes "ToLower ''Name'' = ''name''" and "ToLower ''FOO'' = ''foo''"
    and "ToLower ''bar'' = ''bar''"
  shows "normalizePropNames ToLower (Some [''Name'', ''FOO'']) (Some [''Name'', ''bar'']) = None
    \<and> projection_spec ToLower (Some [''Name'', ''FOO'']) [''Name'', ''bar''] = [''Name'']"
proof -
  have ne: "[''Name'', ''FOO''] \<noteq> ([] :: string list)" by simp
  from assms have "filter (\<lambda>c. c \<in> ToLower ` set [''Name'', ''FOO''])
      (elems (Some [''Name'', ''bar''])) = []"
    by (simp add: elems_def)
  with normalizePropNames_nil [OF ne, of ToLower "Some [''Name'', ''bar'']"]
  have "normalizePropNames ToLower (Some [''Name'', ''FOO'']) (Some [''Name'', ''bar'']) = None"
    by simp
  moreover from assms
  have "projection_spec ToLower (Some [''Name'', ''FOO'']) [''Name'', ''bar''] = [''Name'']"
    by (simp add: projection_spec_def)
  ultimately show ?thesis by simp
qed

text \<open>The lower-casing of ASCII strings is such a function.\<close>

theorem normalizePropNames_capital_column_witness:
  "normalizePropNames asciiLower (Some [''Name'', ''FOO'']) (Some [''Name'', ''bar'']) = None
   \<and> projection_spec asciiLower (Some [''Name'', ''FOO'']) [''Name'', ''bar''] = [''Name'']"
proof -
  have h1: "asciiLower ''Name'' = ''name''" by code_simp
  have h2: "asciiLower ''FOO'' = ''foo''" by code_simp
  have h3: "asciiLower ''bar'' = ''bar''" by code_simp
  from normalizePropNames_capital_column [OF h1 h2 h3] show ?thesis .
qed

text \<open>
  C10, as amended. When the request is not empty and no catalog name equals the
  lower-cased form of a requested name (for an idempotent lower-casing this holds when no
  requested name equals a catalog name up to case, lemma \<open>unmatched_up_to_case\<close>), the
  normalization returns nil and not the empty sequence, and the \<open>Columns\<close> field of the
  assembled parameters is nil. Nil is what the properties field of the request holds when
  the parameter is absent. But the \<open>Columns\<close> field assembled from a request without
  properties is the catalog itself, so whenever the catalog is not nil the two cases have
  different \<open>Columns\<close>; and an explicitly empty request gives the empty non-nil sequence,
  which nil equals in content and not in representation.
\<close>

theorem normalizePropNames_unmatched_nil:
  assumes "names \<noteq> []"
    and "\<forall>c\<in>set (elems colNames). \<forall>name\<in>set names. c \<noteq> ToLower name"
    and "RequestParam.Properties reqUnmatched = Some names"
    and "RequestParam.Properties reqAbsent = None"
    and "RequestParam.Properties reqEmpty = Some []"
  shows "normalizePropNames ToLower (Some names) colNames = None
    \<and> normalizePropNames ToLower (Some names) colNames \<noteq> Some []
    \<and> QueryParam.Columns (createQueryParams ToLower reqUnmatched colNames) = None
    \<and> fst (parseProperties Map.empty) = None
    \<and> QueryParam.Columns (createQueryParams ToLower reqAbsent colNames) = colNames
    \<and> (colNames \<noteq> None \<longrightarrow>
         QueryParam.Columns (createQueryParams ToLower reqUnmatched colNames)
           \<noteq> QueryParam.Columns (createQueryParams ToLower reqAbsent colNames))
    \<and> QueryParam.Columns (createQueryParams ToLower reqEmpty colNames) = Some []
    \<and> elems (QueryParam.Columns (createQueryParams ToLower reqUnmatched colNames))
        = elems (QueryParam.Columns (createQueryParams ToLower reqEmpty colNames))"
proof -
  from assms(2) have "filter (\<lambda>c. c \<in> ToLower ` set names) (elems colNames) = []"
    by (auto simp: filter_empty_conv)
  with normalizePropNames_nil [OF assms(1), of ToLower colNames]
  have nil: "normalizePropNames ToLower (Some names) colNames = None" by simp
  with assms(3)
  have col: "QueryParam.Columns (createQueryParams ToLower reqUnmatched colNames) = None"
    by (simp add: createQueryParams_def)
  have abs: "fst (parseProperties Map.empty) = None" by (simp add: parseProperties_def)
  from assms(4)
  have all: "QueryParam.Columns (createQueryParams ToLower reqAbsent colNames) = colNames"
    by (simp add: createQueryParams_def normalizePropNames_def)
  from assms(5)
  have emp: "QueryParam.Columns (createQueryParams ToLower reqEmpty colNames) = Some []"
    by (simp add: createQueryParams_def normalizePropNames_def)
  from nil col abs all emp show ?thesis by (auto simp: elems_def)
qed

text \<open>The request \<^verbatim>\<open>properties=foo\<close>, a request without properties and the request
  \<^verbatim>\<open>properties=\<close> against the catalog \<open>name\<close>, \<open>bar\<close>.\<close>

theorem normalizePropNames_unmatched_nil_witness:
  "normalizePropNames asciiLower (Some [''foo'']) (Some [''name'', ''bar'']) = None
   \<and> QueryParam.Columns (createQueryParams asciiLower
        \<lparr>RequestParam.Limit = 10, Offset = 0, Precision = - 1, Values = Map.empty,
         Bbox = (None :: int Extent option), Properties = Some [''foo''], OrderBy = None,
         TransformFuns = None\<rparr> (Some [''name'', ''bar''])) = None
   \<and> QueryParam.Columns (createQueryParams asciiLower
        \<lparr>RequestParam.Limit = 10, Offset = 0, Precision = - 1, Values = Map.empty,
         Bbox = (None :: int Extent option), Properties = None, OrderBy = None,
         TransformFuns = None\<rparr> (Some [''name'', ''bar''])) = Some [''name'', ''bar'']
   \<and> QueryParam.Columns (createQueryParams asciiLower
        \<lparr>RequestParam.Limit = 10, Offset = 0, Precision = - 1, Values = Map.empty,
         Bbox = (None :: int Extent option), Properties = Some [], OrderBy = None,
         TransformFuns = None\<rparr> (Some [''name'', ''bar''])) = Some []"
proof -
  let ?u = "\<lparr>RequestParam.Limit = 10, Offset = 0, Precision = - 1, Values = Map.empty,
         Bbox = (None :: int Extent option), Properties = Some [''foo''], OrderBy = None,
         TransformFuns = None\<rparr>"
  let ?a = "\<lparr>RequestParam.Limit = 10, Offset = 0, Precision = - 1, Values = Map.empty,
         Bbox = (None :: int Extent option), Properties = None, OrderBy = None,
         TransformFuns = None\<rparr>"
  let ?e = "\<lparr>RequestParam.Limit = 10, Offset = 0, Precision = - 1, Values = Map.empty,
         Bbox = (None :: int Extent option), Properties = Some [], OrderBy = None,
         TransformFuns = None\<rparr>"
  have h1: "[''foo''] \<noteq> ([] :: string list)" by simp
  have h2: "\<forall>c\<in>set (elems (Some [''name'', ''bar''])). \<forall>name\<in>set [''foo'']. c \<noteq> asciiLower name"
    by code_simp
  have h3: "RequestParam.Properties ?u = Some [''foo'']" by simp
  have h4: "RequestParam.Properties ?a = None" by simp
  have h5: "RequestParam.Properties ?e = Some []" by simp
  from normalizePropNames_unmatched_nil [OF h1 h2 h3 h4 h5] show ?thesis by simp
qed

text \<open>C10 as stated fails in its last part: against the catalog \<open>name\<close>, \<open>bar\<close> the
  \<open>Columns\<close> field is nil for the request \<^verbatim>\<open>properties=foo\<close> and the catalog for a request
  without properties, so the field does tell the two cases apart.\<close>

theorem normalizePropNames_unmatched_nil_counterexample:
  "QueryParam.Columns (createQueryParams asciiLower
        \<lparr>RequestParam.Limit = 10, Offset = 0, Precision = - 1, Values = Map.empty,
         Bbox = (None :: int Extent option), Properties = Some [''foo''], OrderBy = None,
         TransformFuns = None\<rparr> (Some [''name'', ''bar''])) = None
   \<and> QueryParam.Columns (createQueryParams asciiLower
        \<lparr>RequestParam.Limit = 10, Offset = 0, Precision = - 1, Values = Map.empty,
         Bbox = (None :: int Extent option), Properties = None, OrderBy = None,
         TransformFuns = None\<rparr> (Some [''name'', ''bar''])) = Some [''name'', ''bar'']
   \<and> QueryParam.Columns (createQueryParams asciiLower
        \<lparr>RequestParam.Limit = 10, Offset = 0, Precision = - 1, Values = Map.empty,
         Bbox = (None :: int Extent option), Properties = Some [''foo''], OrderBy = None,
         TransformFuns = None\<rparr> (Some [''name'', ''bar'']))
     \<noteq> QueryParam.Columns (createQueryParams asciiLower
        \<lparr>RequestParam.Limit = 10, Offset = 0, Precision = - 1, Values = Map.empty,
         Bbox = (None :: int Extent option), Properties = None, OrderBy = None,
         TransformFuns = None\<rparr> (Some [''name'', ''bar'']))"
  by code_simp

subsection \<open>The filter extractor\<close>








subsection \<open>The transform parser\<close>

lemma actualFunctionName_resolve:
  "actualFunctionName ToLower whitelist name
     = (case resolveName_spec ToLower whitelist name of None \<Rightarrow> [] | Some actual \<Rightarrow> actual)"
  by (simp add: actualFunctionName_def resolveName_spec_def Let_def split: option.splits)

lemma resolveName_spec_ran:
  "resolveName_spec ToLower whitelist name = Some actual \<Longrightarrow> actual \<in> ran whitelist"
  by (auto simp: resolveName_spec_def ran_def split: option.splits if_splits)

lemma actualFunctionName_empty_iff:
  "actualFunctionName ToLower whitelist name = [] \<longleftrightarrow>
     resolveName_spec ToLower whitelist name \<in> {None, Some []}"
  by (auto simp: actualFunctionName_resolve split: option.splits)

lemma resolveName_spec_not_empty:
  "[] \<notin> ran whitelist \<Longrightarrow> resolveName_spec ToLower whitelist name \<noteq> Some []"
  using resolveName_spec_ran [where whitelist = whitelist and name = name and actual = "[]" and ToLower = ToLower] by auto

lemma initTransforms_loop_lookup:
  "initTransforms_loop ToLower funNames whitelist key = Some actual \<Longrightarrow>
   whitelist key = Some actual \<or> (actual \<in> set funNames \<and> ToLower actual = key)"
proof (induction funNames arbitrary: whitelist)
  case Nil
  then show ?case by simp
next
  case (Cons name rest)
  from Cons.prems have "initTransforms_loop ToLower rest (whitelist(ToLower name \<mapsto> name)) key = Some actual"
    by (simp add: Let_def)
  from Cons.IH [OF this]
  have "(whitelist(ToLower name \<mapsto> name)) key = Some actual
      \<or> (actual \<in> set rest \<and> ToLower actual = key)" .
  then show ?case
  proof
    assume "(whitelist(ToLower name \<mapsto> name)) key = Some actual"
    then show ?thesis by (cases "key = ToLower name") simp_all
  next
    assume "actual \<in> set rest \<and> ToLower actual = key"
    then show ?thesis by simp
  qed
qed

lemma initTransforms_lookup:
  "initTransforms ToLower funNames key = Some actual \<Longrightarrow> actual \<in> set funNames \<and> ToLower actual = key"
  using initTransforms_loop_lookup [where funNames = funNames and whitelist = Map.empty and key = key and actual = actual and ToLower = ToLower]
  by (simp add: initTransforms_def)

lemma initTransforms_ran: "ran (initTransforms ToLower funNames) \<subseteq> set funNames"
  by (auto simp: ran_def dest: initTransforms_lookup)

lemma parseTransform_loop_ok:
  "\<forall>d\<in>set funDefs. actualFunctionName ToLower whitelist (TransformFunction.Name (parseTransformFun d)) \<noteq> [] \<Longrightarrow>
   parseTransform_loop ToLower whitelist funDefs funList =
     (Some (funList @
        map (\<lambda>d. \<lparr>TransformFunction.Name =
                     actualFunctionName ToLower whitelist (TransformFunction.Name (parseTransformFun d)),
                  Arg = Arg (parseTransformFun d)\<rparr>) funDefs), None)"
proof (induction funDefs arbitrary: funList)
  case Nil
  show ?case by simp
next
  case (Cons d rest)
  let ?tf = "parseTransformFun d"
  let ?actual = "actualFunctionName ToLower whitelist (TransformFunction.Name ?tf)"
  from Cons.prems have ne: "?actual \<noteq> []" and rest: "\<forall>d\<in>set rest.
      actualFunctionName ToLower whitelist (TransformFunction.Name (parseTransformFun d)) \<noteq> []"
    by simp_all
  have upd: "?tf\<lparr>TransformFunction.Name := ?actual\<rparr>
      = \<lparr>TransformFunction.Name = ?actual, Arg = Arg ?tf\<rparr>"
    by simp
  from ne Cons.IH [OF rest, where funList = "funList @ [\<lparr>TransformFunction.Name = ?actual, Arg = Arg ?tf\<rparr>]"]
  show ?case by (simp add: Let_def upd)
qed

lemma parseTransform_loop_fail:
  "\<forall>d\<in>set pre. actualFunctionName ToLower whitelist (TransformFunction.Name (parseTransformFun d)) \<noteq> [] \<Longrightarrow>
   actualFunctionName ToLower whitelist (TransformFunction.Name (parseTransformFun bad)) = [] \<Longrightarrow>
   parseTransform_loop ToLower whitelist (pre @ bad # post) funList =
     (None, Some (InvalidParameterValue ParamTransform
                    (TransformFunction.Name (parseTransformFun bad))))"
proof (induction pre arbitrary: funList)
  case Nil
  then show ?case by (simp add: Let_def)
next
  case (Cons d rest)
  let ?tf = "parseTransformFun d"
  let ?actual = "actualFunctionName ToLower whitelist (TransformFunction.Name ?tf)"
  from Cons.prems have ne: "?actual \<noteq> []" and rest: "\<forall>d\<in>set rest.
      actualFunctionName ToLower whitelist (TransformFunction.Name (parseTransformFun d)) \<noteq> []"
    by simp_all
  have upd: "?tf\<lparr>TransformFunction.Name := ?actual\<rparr>
      = \<lparr>TransformFunction.Name = ?actual, Arg = Arg ?tf\<rparr>"
    by simp
  from ne Cons.IH [OF rest Cons.prems(2),
      where funList = "funList @ [\<lparr>TransformFunction.Name = ?actual, Arg = Arg ?tf\<rparr>]"]
  show ?case by (simp add: Let_def upd)
qed

lemma parseTransformFun_verbatim:
  "Join (TransformFunction.Name (parseTransformFun def) # Arg (parseTransformFun def))
     transformParamSep = def"
proof -
  have sep: "transformParamSep \<noteq> []" by (simp add: transformParamSep_def)
  from Split_not_Nil [OF sep, of "def"] obtain x xs where s: "Split def transformParamSep = x # xs"
    by (cases "Split def transformParamSep") simp_all
  with Split_Join [OF sep, of "def"] show ?thesis
    by (simp add: parseTransformFun_def Let_def)
qed


lemma parseTransformFun_atoms:
  "TransformFunction.Name (parseTransformFun def) # Arg (parseTransformFun def)
     = Split def transformParamSep"
proof -
  have sep: "transformParamSep \<noteq> []" by (simp add: transformParamSep_def)
  from Split_not_Nil [OF sep, of "def"] obtain x xs where s: "Split def transformParamSep = x # xs"
    by (cases "Split def transformParamSep") simp_all
  then show ?thesis by (simp add: parseTransformFun_def Let_def)
qed

lemma Split_transformParamSep:
  "Join (Split s transformParamSep) transformParamSep = s
   \<and> (\<forall>piece\<in>set (Split s transformParamSep). CHR '','' \<notin> set piece)"
proof
  show "Join (Split s transformParamSep) transformParamSep = s"
    by (simp add: Split_Join transformParamSep_def)
  show "\<forall>piece\<in>set (Split s transformParamSep). CHR '','' \<notin> set piece"
  proof
    fix piece assume "piece \<in> set (Split s transformParamSep)"
    then have "Index piece '','' = None" by (simp add: Split_pieces transformParamSep_def)
    with Index_char_None [of piece "CHR '',''"] show "CHR '','' \<notin> set piece" by simp
  qed
qed

lemma Split_transformFunSep:
  "Join (Split s transformFunSep) transformFunSep = s
   \<and> (\<forall>piece\<in>set (Split s transformFunSep). CHR ''|'' \<notin> set piece)"
proof
  show "Join (Split s transformFunSep) transformFunSep = s"
    by (simp add: Split_Join transformFunSep_def)
  show "\<forall>piece\<in>set (Split s transformFunSep). CHR ''|'' \<notin> set piece"
  proof
    fix piece assume "piece \<in> set (Split s transformFunSep)"
    then have "Index piece ''|'' = None" by (simp add: Split_pieces transformFunSep_def)
    with Index_char_None [of piece "CHR ''|''"] show "CHR ''|'' \<notin> set piece" by simp
  qed
qed

lemma parseTransform_present:
  "vals ParamTransform = Some v \<Longrightarrow> v \<noteq> [] \<Longrightarrow>
   parseTransform ToLower whitelist vals = parseTransform_loop ToLower whitelist (Split v transformFunSep) []"
  by (simp add: parseTransform_def index_map_Some Let_def)

text \<open>
  C4, as amended. For an absent or empty value the transform parser returns nil and no
  error. A non-empty value is split at the function separator into definitions, and each
  definition at the parameter separator into its name and its arguments: the pieces have
  no separator in them and join back to the text as written. Each name is resolved as
  the spec says: by the lower-cased name, and when that fails and the lower-cased name
  does not start with the prefix, by the prefix followed by the lower-cased name. A name
  counts as resolved when this finds a canonical name other than the empty string, which
  the code returns for "not found"; a whitelist of non-empty names never resolves a name
  to the empty string. When some name does not resolve, the parser returns the error
  \<open>InvalidParameterValue\<close> of the parameter name and the first such name, as written in the
  request, together with a nil list. When every name resolves, it returns the functions
  in the order of the input, each with the canonical name from the whitelist and the
  arguments of its definition unchanged.
\<close>

theorem parseTransform_resolution:
  "(vals ParamTransform = None \<or> vals ParamTransform = Some [] \<longrightarrow>
      parseTransform ToLower whitelist vals = (None, None))
   \<and> (vals ParamTransform = Some v \<and> v \<noteq> []
        \<and> funs = map parseTransformFun (Split v transformFunSep) \<longrightarrow>
      (funs = pre @ bad # post
         \<and> (\<forall>f\<in>set pre.
               resolveName_spec ToLower whitelist (TransformFunction.Name f) \<notin> {None, Some []})
         \<and> resolveName_spec ToLower whitelist (TransformFunction.Name bad) \<in> {None, Some []} \<longrightarrow>
       parseTransform ToLower whitelist vals
         = (None, Some (InvalidParameterValue ParamTransform (TransformFunction.Name bad))))
      \<and> ((\<forall>f\<in>set funs.
              resolveName_spec ToLower whitelist (TransformFunction.Name f) \<notin> {None, Some []}) \<longrightarrow>
       parseTransform ToLower whitelist vals
         = (Some (map (\<lambda>f. \<lparr>TransformFunction.Name =
                               the (resolveName_spec ToLower whitelist (TransformFunction.Name f)),
                             Arg = Arg f\<rparr>) funs), None))
      \<and> (\<forall>f\<in>set funs. \<forall>actual.
            resolveName_spec ToLower whitelist (TransformFunction.Name f) = Some actual \<longrightarrow>
            actual \<in> ran whitelist)
      \<and> (\<forall>def\<in>set (Split v transformFunSep).
            Join (TransformFunction.Name (parseTransformFun def) # Arg (parseTransformFun def))
              transformParamSep = def))
   \<and> ([] \<notin> ran whitelist \<longrightarrow> (\<forall>name. resolveName_spec ToLower whitelist name \<noteq> Some []))
   \<and> (\<forall>def. TransformFunction.Name (parseTransformFun def) # Arg (parseTransformFun def)
              = Split def transformParamSep
            \<and> Join (Split def transformParamSep) transformParamSep = def
            \<and> (\<forall>piece\<in>set (Split def transformParamSep). CHR '','' \<notin> set piece))
   \<and> Join (Split v transformFunSep) transformFunSep = v
   \<and> (\<forall>def\<in>set (Split v transformFunSep). CHR ''|'' \<notin> set def)"
proof (intro conjI impI)
  assume "vals ParamTransform = None \<or> vals ParamTransform = Some []"
  then have "index_map vals ParamTransform = []" by (simp add: index_map_empty_iff)
  then show "parseTransform ToLower whitelist vals = (None, None)" by (simp add: parseTransform_def)
next
  assume a: "vals ParamTransform = Some v \<and> v \<noteq> []
        \<and> funs = map parseTransformFun (Split v transformFunSep)"
    and b: "funs = pre @ bad # post
         \<and> (\<forall>f\<in>set pre. resolveName_spec ToLower whitelist (TransformFunction.Name f) \<notin> {None, Some []})
         \<and> resolveName_spec ToLower whitelist (TransformFunction.Name bad) \<in> {None, Some []}"
  from a b have "pre @ bad # post = map parseTransformFun (Split v transformFunSep)" by simp
  then obtain dpre dbad dpost where d: "Split v transformFunSep = dpre @ dbad # dpost"
      "pre = map parseTransformFun dpre" "bad = parseTransformFun dbad"
    by (auto simp: append_eq_map_conv Cons_eq_map_conv)
  from b d(2) have "\<forall>d\<in>set dpre.
      actualFunctionName ToLower whitelist (TransformFunction.Name (parseTransformFun d)) \<noteq> []"
    by (simp add: actualFunctionName_empty_iff)
  moreover from b d(3)
  have "actualFunctionName ToLower whitelist (TransformFunction.Name (parseTransformFun dbad)) = []"
    by (simp only: actualFunctionName_empty_iff)
  ultimately have "parseTransform_loop ToLower whitelist (dpre @ dbad # dpost) [] =
     (None, Some (InvalidParameterValue ParamTransform
                    (TransformFunction.Name (parseTransformFun dbad))))"
    by (rule parseTransform_loop_fail)
  with a d(1,3) show "parseTransform ToLower whitelist vals
         = (None, Some (InvalidParameterValue ParamTransform (TransformFunction.Name bad)))"
    by (simp add: parseTransform_present)
next
  assume a: "vals ParamTransform = Some v \<and> v \<noteq> []
        \<and> funs = map parseTransformFun (Split v transformFunSep)"
    and b: "\<forall>f\<in>set funs. resolveName_spec ToLower whitelist (TransformFunction.Name f) \<notin> {None, Some []}"
  from a b have ok: "\<forall>d\<in>set (Split v transformFunSep).
      actualFunctionName ToLower whitelist (TransformFunction.Name (parseTransformFun d)) \<noteq> []"
    by (simp add: actualFunctionName_empty_iff)
  from a parseTransform_loop_ok [OF ok, where funList = "[]"]
  show "parseTransform ToLower whitelist vals
         = (Some (map (\<lambda>f. \<lparr>TransformFunction.Name =
                               the (resolveName_spec ToLower whitelist (TransformFunction.Name f)),
                             Arg = Arg f\<rparr>) funs), None)"
    using b by (auto simp: parseTransform_present actualFunctionName_resolve comp_def)
next
  show "\<forall>f\<in>set funs. \<forall>actual.
            resolveName_spec ToLower whitelist (TransformFunction.Name f) = Some actual \<longrightarrow>
            actual \<in> ran whitelist"
    by (auto dest: resolveName_spec_ran)
next
  show "\<forall>def\<in>set (Split v transformFunSep).
            Join (TransformFunction.Name (parseTransformFun def) # Arg (parseTransformFun def))
              transformParamSep = def"
    by (simp add: parseTransformFun_verbatim)
next
  assume "[] \<notin> ran whitelist"
  then show "\<forall>name. resolveName_spec ToLower whitelist name \<noteq> Some []"
    by (simp add: resolveName_spec_not_empty)
next
  show "\<forall>def. TransformFunction.Name (parseTransformFun def) # Arg (parseTransformFun def)
              = Split def transformParamSep
            \<and> Join (Split def transformParamSep) transformParamSep = def
            \<and> (\<forall>piece\<in>set (Split def transformParamSep). CHR '','' \<notin> set piece)"
    using parseTransformFun_atoms Split_transformParamSep by blast
next
  show "Join (Split v transformFunSep) transformFunSep = v"
    using Split_transformFunSep by blast
next
  show "\<forall>def\<in>set (Split v transformFunSep). CHR ''|'' \<notin> set def"
    using Split_transformFunSep by blast
qed

text \<open>With the whitelist of \<open>ST_Buffer\<close> and \<open>ST_Centroid\<close>: \<^verbatim>\<open>transform=buffer,10|ST_CENTROID\<close>
  gives both functions under their canonical names, and
  \<^verbatim>\<open>transform=buffer,10|nonexistent|alsobad,1\<close> fails on \<open>nonexistent\<close>.\<close>

theorem parseTransform_resolution_witness:
  "parseTransform asciiLower (initTransforms asciiLower [''ST_Buffer'', ''ST_Centroid''])
      [ParamTransform \<mapsto> ''buffer,10|ST_CENTROID'']
     = (Some [\<lparr>TransformFunction.Name = ''ST_Buffer'', Arg = [''10'']\<rparr>,
              \<lparr>TransformFunction.Name = ''ST_Centroid'', Arg = []\<rparr>], None)
   \<and> parseTransform asciiLower (initTransforms asciiLower [''ST_Buffer'', ''ST_Centroid''])
      [ParamTransform \<mapsto> ''buffer,10|nonexistent|alsobad,1'']
     = (None, Some (InvalidParameterValue ParamTransform ''nonexistent''))
   \<and> resolveName_spec asciiLower (initTransforms asciiLower [''ST_Buffer'', ''ST_Centroid'']) ''Buffer'' \<noteq> Some []"
proof -
  let ?wl = "initTransforms asciiLower [''ST_Buffer'', ''ST_Centroid'']"
  let ?good = "''buffer,10|ST_CENTROID''"
  let ?bad = "''buffer,10|nonexistent|alsobad,1''"
  let ?f1 = "\<lparr>TransformFunction.Name = ''buffer'', Arg = [''10'']\<rparr>"
  let ?f2 = "\<lparr>TransformFunction.Name = ''ST_CENTROID'', Arg = []\<rparr>"
  let ?b = "\<lparr>TransformFunction.Name = ''nonexistent'', Arg = []\<rparr>"
  let ?p = "\<lparr>TransformFunction.Name = ''alsobad'', Arg = [''1'']\<rparr>"
  have wl: "[] \<notin> ran ?wl" using initTransforms_ran [where funNames = "[''ST_Buffer'', ''ST_Centroid'']" and ToLower = asciiLower] by auto
  have g: "[?f1, ?f2] = map parseTransformFun (Split ?good transformFunSep)" by code_simp
  have gr: "\<forall>f\<in>set [?f1, ?f2]. resolveName_spec asciiLower ?wl (TransformFunction.Name f) \<notin> {None, Some []}"
    by code_simp
  have gm: "map (\<lambda>f. \<lparr>TransformFunction.Name = the (resolveName_spec asciiLower ?wl (TransformFunction.Name f)),
                       Arg = Arg f\<rparr>) [?f1, ?f2]
      = [\<lparr>TransformFunction.Name = ''ST_Buffer'', Arg = [''10'']\<rparr>,
         \<lparr>TransformFunction.Name = ''ST_Centroid'', Arg = []\<rparr>]"
    by code_simp
  have b: "[?f1] @ ?b # [?p] = map parseTransformFun (Split ?bad transformFunSep)" by code_simp
  have br: "\<forall>f\<in>set [?f1]. resolveName_spec asciiLower ?wl (TransformFunction.Name f) \<notin> {None, Some []}"
    by code_simp
  have bn: "resolveName_spec asciiLower ?wl (TransformFunction.Name ?b) \<in> {None, Some []}" by code_simp
  note t1 = parseTransform_resolution [where ToLower = asciiLower and whitelist = ?wl
      and vals = "[ParamTransform \<mapsto> ?good]" and v = ?good and funs = "[?f1, ?f2]"
      and pre = "[]" and bad = ?f1 and post = "[]"]
  note t2 = parseTransform_resolution [where ToLower = asciiLower and whitelist = ?wl
      and vals = "[ParamTransform \<mapsto> ?bad]" and v = ?bad and funs = "[?f1] @ ?b # [?p]"
      and pre = "[?f1]" and bad = ?b and post = "[?p]"]
  from g gr t1
  have "parseTransform asciiLower ?wl [ParamTransform \<mapsto> ?good]
     = (Some (map (\<lambda>f. \<lparr>TransformFunction.Name = the (resolveName_spec asciiLower ?wl (TransformFunction.Name f)),
                       Arg = Arg f\<rparr>) [?f1, ?f2]), None)"
    by simp
  with gm have w1: "parseTransform asciiLower ?wl [ParamTransform \<mapsto> ?good]
     = (Some [\<lparr>TransformFunction.Name = ''ST_Buffer'', Arg = [''10'']\<rparr>,
              \<lparr>TransformFunction.Name = ''ST_Centroid'', Arg = []\<rparr>], None)"
    by simp
  from b br bn t2
  have w2: "parseTransform asciiLower ?wl [ParamTransform \<mapsto> ?bad]
     = (None, Some (InvalidParameterValue ParamTransform ''nonexistent''))"
    by simp
  from wl t1 have w3: "resolveName_spec asciiLower ?wl ''Buffer'' \<noteq> Some []" by blast
  from w1 w2 w3 show ?thesis by simp
qed

text \<open>C4 as the spec states it fails for a parameter that is present with an empty
  value: for \<^verbatim>\<open>transform=\<close> the split gives the one definition with the empty name, which
  resolves neither way, and yet the parser returns nil and no error. It also fails for a
  whitelist that holds the empty name: there the empty name of \<^verbatim>\<open>transform=|\<close> has an exact
  match, and yet the parser returns the error.\<close>

theorem parseTransform_resolution_counterexample:
  "[ParamTransform \<mapsto> ([] :: string)] ParamTransform = Some []
   \<and> map parseTransformFun (Split [] transformFunSep)
       = [\<lparr>TransformFunction.Name = [], Arg = []\<rparr>]
   \<and> resolveName_spec asciiLower (initTransforms asciiLower [''ST_Buffer'']) [] = None
   \<and> parseTransform asciiLower (initTransforms asciiLower [''ST_Buffer''])
        [ParamTransform \<mapsto> ([] :: string)] = (None, None)
   \<and> resolveName_spec asciiLower (initTransforms asciiLower [[]]) [] = Some []
   \<and> parseTransform asciiLower (initTransforms asciiLower [[]]) [ParamTransform \<mapsto> ''|'']
       = (None, Some (InvalidParameterValue ParamTransform []))"
  by code_simp

end
